theory Spec2Isabelle
  imports Complex_Main "HOL-Library.Sublist"
begin

section \<open>The claim-cleaning pipeline of \<open>src/cleaning/data_cleaning.py\<close>\<close>

text \<open>
  The script connects to a remote engine (\<open>get_spark\<close>), reads one table, converts it
  to a pandas frame, applies nine cleaning rules in a fixed order and writes the result
  under two names. Every line of the cleaner is a call into pandas, so the embedding
  consists of a small model of the pandas operations the script calls, with the
  arguments the script passes, and of the script's own control flow on top of them.

  Idealisations, stated once:
  \<^item> numeric cells are rationals: float rounding is not modelled;
  \<^item> a column name occurs once in a frame (the frame comes from a table of the
    engine, whose column names are unique), so a row is a function from column names
    to cells, read only at the names in \<open>columns\<close>;
  \<^item> what the date parser of the library makes of a string or of a number is a
    parameter \<open>parse\<close> of the model;
  \<^item> diagnostic printing is left out.
\<close>

subsection \<open>Errors\<close>

datatype error =
    RuntimeError string
  | KeyError "string list"
  | TypeError
  | OverflowError
  | ParserError
  | OutOfBoundsDatetime
  | AnalysisException string

definition bind_res :: "error + 'a \<Rightarrow> ('a \<Rightarrow> error + 'b) \<Rightarrow> error + 'b" where
  "bind_res m k = (case m of Inl e \<Rightarrow> Inl e | Inr x \<Rightarrow> k x)"

text \<open>A vectorised operation raises as soon as one element raises.\<close>

fun collect :: "(error + 'a) list \<Rightarrow> error + 'a list" where
  "collect [] = Inr []"
| "collect (x # xs) =
     (case x of
        Inl e \<Rightarrow> Inl e
      | Inr v \<Rightarrow> (case collect xs of Inl e \<Rightarrow> Inl e | Inr vs \<Rightarrow> Inr (v # vs)))"

subsection \<open>Frames\<close>

text \<open>
  A cell is missing (\<open>NA\<close>: None, NaN or NaT), a number, a string or a timestamp. A
  timestamp is a count of nanoseconds since the epoch, as in \<open>datetime64[ns]\<close>.
\<close>

datatype cell = NA | Num rat | Str string | Ts int

type_synonym row = "string \<Rightarrow> cell"

text \<open>
  A frame has its column names in order and its rows in order, each row with its index
  label. Row operations of pandas keep the labels of the rows they retain.
\<close>

record frame =
  columns :: "string list"
  rows :: "(nat \<times> row) list"

text \<open>A table of the engine: named columns and rows, no index.\<close>

record table =
  table_columns :: "string list"
  table_rows :: "row list"

text \<open>\<open>spark_df.toPandas()\<close>: the rows get the labels \<open>0, 1, ...\<close> (a RangeIndex).\<close>

definition toPandas :: "table \<Rightarrow> frame" where
  "toPandas t =
     \<lparr>columns = table_columns t,
      rows = zip [0..<length (table_rows t)] (table_rows t)\<rparr>"

text \<open>\<open>spark.createDataFrame(df)\<close>: the index is not part of the table.\<close>

definition createDataFrame :: "frame \<Rightarrow> table" where
  "createDataFrame f = \<lparr>table_columns = columns f, table_rows = map snd (rows f)\<rparr>"

text \<open>The cells of every row, in column order, with the row's label.\<close>

definition records :: "frame \<Rightarrow> (nat \<times> cell list) list" where
  "records f = map (\<lambda>(l, r). (l, map r (columns f))) (rows f)"

text \<open>\<open>df[c]\<close>: the cells of one column, in row order.\<close>

definition column :: "frame \<Rightarrow> string \<Rightarrow> cell list" where
  "column f c = map (\<lambda>(l, r). r c) (rows f)"

text \<open>\<open>df[c] = s\<close> for a series \<open>s\<close> over the frame's own index.\<close>

definition set_column :: "frame \<Rightarrow> string \<Rightarrow> cell list \<Rightarrow> frame" where
  "set_column f c s = f\<lparr>rows := map2 (\<lambda>(l, r) v. (l, r(c := v))) (rows f) s\<rparr>"

subsection \<open>The pandas operations the cleaner calls\<close>

text \<open>A row is fully empty when every column of the frame is missing in it.\<close>

definition all_missing :: "string list \<Rightarrow> row \<Rightarrow> bool" where
  "all_missing cols r = list_all (\<lambda>c. r c = NA) cols"

text \<open>\<open>df.dropna(how="all")\<close>.\<close>

definition dropna_all :: "frame \<Rightarrow> frame" where
  "dropna_all f = f\<lparr>rows := filter (\<lambda>(l, r). \<not> all_missing (columns f) r) (rows f)\<rparr>"

text \<open>
  \<open>df.isnull().mean() * 100\<close> for one column: the mean of an empty series is NaN,
  here \<open>None\<close>.
\<close>

definition missing_pct :: "frame \<Rightarrow> string \<Rightarrow> rat option" where
  "missing_pct f c =
     (if rows f = [] then None
      else Some (of_nat (length (filter (\<lambda>v. v = NA) (column f c)))
                   / of_nat (length (rows f)) * 100))"

text \<open>A comparison with NaN is false.\<close>

definition nan_gt :: "rat option \<Rightarrow> rat \<Rightarrow> bool" where
  "nan_gt x b = (case x of None \<Rightarrow> False | Some v \<Rightarrow> v > b)"

datatype errors_mode = Raise | Ignore | Coerce

text \<open>\<open>df.drop(columns=names, errors=mode)\<close>.\<close>

definition drop_columns :: "string list \<Rightarrow> errors_mode \<Rightarrow> frame \<Rightarrow> error + frame" where
  "drop_columns names mode f =
     (if mode \<noteq> Ignore \<and> \<not> set names \<subseteq> set (columns f)
      then Inl (KeyError (filter (\<lambda>c. c \<notin> set (columns f)) names))
      else Inr (f\<lparr>columns := filter (\<lambda>c. c \<notin> set names) (columns f)\<rparr>))"

text \<open>The range of \<open>datetime64[ns]\<close>; the least 64-bit value is the NaT marker.\<close>

definition ts_min :: int where
  "ts_min = - 9223372036854775807"

definition ts_max :: int where
  "ts_max = 9223372036854775807"

definition in_bounds :: "int \<Rightarrow> bool" where
  "in_bounds t = (ts_min \<le> t \<and> t \<le> ts_max)"

text \<open>
  \<open>pd.to_datetime(s, errors=mode)\<close>, one cell: a missing value stays missing, a
  timestamp stays as it is, anything else goes through the parser. A value that does not
  parse, or parses to a time out of range, raises under \<open>errors="raise"\<close> and becomes NaT
  under \<open>errors="coerce"\<close>.
\<close>

fun to_datetime_cell :: "(cell \<Rightarrow> int option) \<Rightarrow> errors_mode \<Rightarrow> cell \<Rightarrow> error + cell" where
  "to_datetime_cell parse mode NA = Inr NA"
| "to_datetime_cell parse mode (Ts t) = Inr (Ts t)"
| "to_datetime_cell parse mode v =
     (case parse v of
        None \<Rightarrow> if mode = Coerce then Inr NA else Inl ParserError
      | Some t \<Rightarrow>
          if in_bounds t then Inr (Ts t)
          else if mode = Coerce then Inr NA else Inl OutOfBoundsDatetime)"

definition to_datetime :: "(cell \<Rightarrow> int option) \<Rightarrow> errors_mode \<Rightarrow> cell list \<Rightarrow> error + cell list" where
  "to_datetime parse mode s = collect (map (to_datetime_cell parse mode) s)"

text \<open>\<open>pd.Timedelta(days=n)\<close> in nanoseconds.\<close>

definition Timedelta_days :: "int \<Rightarrow> int" where
  "Timedelta_days n = n * 86400000000000"

text \<open>
  A timestamp plus a duration: NaT stays NaT, a result out of range raises OverflowError,
  a cell that is no timestamp raises TypeError.
\<close>

fun cell_add :: "cell \<Rightarrow> int \<Rightarrow> error + cell" where
  "cell_add NA d = Inr NA"
| "cell_add (Ts t) d = (if in_bounds (t + d) then Inr (Ts (t + d)) else Inl OverflowError)"
| "cell_add v d = Inl TypeError"

text \<open>\<open>s + delta\<close> and \<open>s - delta\<close> on a series.\<close>

definition series_add :: "cell list \<Rightarrow> int \<Rightarrow> error + cell list" where
  "series_add s d = collect (map (\<lambda>v. cell_add v d) s)"

definition series_sub :: "cell list \<Rightarrow> int \<Rightarrow> error + cell list" where
  "series_sub s d = series_add s (- d)"

text \<open>\<open>s.fillna(other)\<close> with a series over the same index, and with one value.\<close>

definition fillna_series :: "cell list \<Rightarrow> cell list \<Rightarrow> cell list" where
  "fillna_series s other = map2 (\<lambda>v w. if v = NA then w else v) s other"

definition fillna_value :: "cell list \<Rightarrow> cell \<Rightarrow> cell list" where
  "fillna_value s w = map (\<lambda>v. if v = NA then w else v) s"

text \<open>
  \<open>s.quantile(q)\<close> with the default linear interpolation: the missing values are left
  out, the rest sorted, and the value at the position \<open>q * (n - 1)\<close> is interpolated
  between its two neighbours. No value at all gives NaN; a value that is not a number
  raises TypeError.
\<close>

fun numeric_cell :: "cell \<Rightarrow> error + rat option" where
  "numeric_cell NA = Inr None"
| "numeric_cell (Num x) = Inr (Some x)"
| "numeric_cell v = Inl TypeError"

definition present_values :: "rat option list \<Rightarrow> rat list" where
  "present_values vs = concat (map (\<lambda>v. case v of None \<Rightarrow> [] | Some x \<Rightarrow> [x]) vs)"

definition quantile_linear :: "rat \<Rightarrow> rat list \<Rightarrow> rat" where
  "quantile_linear q xs =
     (let pos = q * of_nat (length xs - 1);
          lo = nat \<lfloor>pos\<rfloor>;
          hi = min (lo + 1) (length xs - 1);
          frac = pos - of_nat lo
      in xs ! lo + (xs ! hi - xs ! lo) * frac)"

definition quantile :: "cell list \<Rightarrow> rat \<Rightarrow> error + rat option" where
  "quantile s q =
     (case collect (map numeric_cell s) of
        Inl e \<Rightarrow> Inl e
      | Inr vs \<Rightarrow>
          let xs = sort (present_values vs)
          in if xs = [] then Inr None else Inr (Some (quantile_linear q xs)))"

text \<open>Float arithmetic with NaN, and the two comparisons of a cell with a float.\<close>

definition nan_op :: "(rat \<Rightarrow> rat \<Rightarrow> rat) \<Rightarrow> rat option \<Rightarrow> rat option \<Rightarrow> rat option" where
  "nan_op f a b =
     (case a of None \<Rightarrow> None | Some x \<Rightarrow> (case b of None \<Rightarrow> None | Some y \<Rightarrow> Some (f x y)))"

fun cell_ge :: "cell \<Rightarrow> rat option \<Rightarrow> bool" where
  "cell_ge (Num v) (Some b) = (v \<ge> b)"
| "cell_ge v b = False"

fun cell_le :: "cell \<Rightarrow> rat option \<Rightarrow> bool" where
  "cell_le (Num v) (Some b) = (v \<le> b)"
| "cell_le v b = False"

text \<open>
  \<open>df.drop_duplicates()\<close>: a row is a duplicate when the cells of an earlier row are the
  same in every column (two missing cells count as the same); the first occurrence
  stays. pandas returns a frame with no rows or no columns as it is
  (\<open>if self.empty: return self.copy()\<close>).
\<close>

fun keep_first :: "string list \<Rightarrow> cell list list \<Rightarrow> (nat \<times> row) list \<Rightarrow> (nat \<times> row) list" where
  "keep_first cols seen [] = []"
| "keep_first cols seen ((l, r) # rs) =
     (if map r cols \<in> set seen then keep_first cols seen rs
      else (l, r) # keep_first cols (map r cols # seen) rs)"

definition drop_duplicates :: "frame \<Rightarrow> frame" where
  "drop_duplicates f =
     (if columns f = [] \<or> rows f = [] then f
      else f\<lparr>rows := keep_first (columns f) [] (rows f)\<rparr>)"

subsection \<open>The cleaner: lines 61 to 102 of \<open>main\<close>\<close>

text \<open>Lines 64 and 65: the columns whose missing percentage is above 40.\<close>

definition cols_to_drop :: "frame \<Rightarrow> string list" where
  "cols_to_drop df = filter (\<lambda>c. nan_gt (missing_pct df c) 40) (columns df)"

text \<open>Lines 74 to 76: the loop over the three date columns.\<close>

definition date_columns :: "string list" where
  "date_columns = [''pd_dt'', ''clm_adjud_ts'', ''clm_sys_cret_dt'']"

definition parse_date_column :: "(cell \<Rightarrow> int option) \<Rightarrow> string \<Rightarrow> frame \<Rightarrow> error + frame" where
  "parse_date_column parse col df =
     (if col \<in> set (columns df)
      then (case to_datetime parse Coerce (column df col) of
              Inl e \<Rightarrow> Inl e
            | Inr s \<Rightarrow> Inr (set_column df col s))
      else Inr df)"

fun for_each :: "(string \<Rightarrow> frame \<Rightarrow> error + frame) \<Rightarrow> string list \<Rightarrow> frame \<Rightarrow> error + frame" where
  "for_each body [] df = Inr df"
| "for_each body (c # cs) df = bind_res (body c df) (for_each body cs)"

definition parse_dates :: "(cell \<Rightarrow> int option) \<Rightarrow> frame \<Rightarrow> error + frame" where
  "parse_dates parse df = for_each (parse_date_column parse) date_columns df"

text \<open>Lines 78 and 79.\<close>

definition impute_pd_dt :: "frame \<Rightarrow> error + frame" where
  "impute_pd_dt df =
     (if ''clm_sys_cret_dt'' \<in> set (columns df) \<and> ''pd_dt'' \<in> set (columns df)
      then (case series_add (column df ''clm_sys_cret_dt'') (Timedelta_days 2) of
              Inl e \<Rightarrow> Inl e
            | Inr other \<Rightarrow>
                Inr (set_column df ''pd_dt'' (fillna_series (column df ''pd_dt'') other)))
      else Inr df)"

text \<open>Lines 81 and 82.\<close>

definition impute_clm_adjud_ts :: "frame \<Rightarrow> error + frame" where
  "impute_clm_adjud_ts df =
     (if ''pd_dt'' \<in> set (columns df) \<and> ''clm_adjud_ts'' \<in> set (columns df)
      then (case series_sub (column df ''pd_dt'') (Timedelta_days 2) of
              Inl e \<Rightarrow> Inl e
            | Inr other \<Rightarrow>
                Inr (set_column df ''clm_adjud_ts''
                       (fillna_series (column df ''clm_adjud_ts'') other)))
      else Inr df)"

text \<open>Lines 85 and 86.\<close>

definition impute_categorical :: "frame \<Rightarrow> frame" where
  "impute_categorical df =
     (if ''procsr_apprv_pay_by_nm'' \<in> set (columns df)
      then set_column df ''procsr_apprv_pay_by_nm''
             (fillna_value (column df ''procsr_apprv_pay_by_nm'') (Str ''unknown''))
      else df)"

text \<open>Lines 89 to 97. The two bounds of the accepted range, from a series.\<close>

definition iqr_bounds :: "cell list \<Rightarrow> error + (rat option \<times> rat option)" where
  "iqr_bounds s =
     bind_res (quantile s (1 / 4)) (\<lambda>Q1.
     bind_res (quantile s (3 / 4)) (\<lambda>Q3.
       let IQR = nan_op (-) Q3 Q1;
           lower = nan_op (-) Q1 (nan_op (*) (Some (3 / 2)) IQR);
           upper = nan_op (+) Q3 (nan_op (*) (Some (3 / 2)) IQR)
       in Inr (lower, upper)))"

definition remove_outliers :: "frame \<Rightarrow> error + frame" where
  "remove_outliers df =
     (if ''totl_billd_amt'' \<in> set (columns df)
      then bind_res (iqr_bounds (column df ''totl_billd_amt'')) (\<lambda>(lower, upper).
             Inr (df\<lparr>rows := filter (\<lambda>(l, r). cell_ge (r ''totl_billd_amt'') lower
                                         \<and> cell_le (r ''totl_billd_amt'') upper)
                                (rows df)\<rparr>))
      else Inr df)"

text \<open>The nine rules in the order of the source.\<close>

definition clean :: "(cell \<Rightarrow> int option) \<Rightarrow> frame \<Rightarrow> error + frame" where
  "clean parse df0 =
     (let df = dropna_all df0 in
      bind_res (drop_columns (cols_to_drop df) Ignore df) (\<lambda>df.
      bind_res (drop_columns [''authzn_id''] Ignore df) (\<lambda>df.
      bind_res (parse_dates parse df) (\<lambda>df.
      bind_res (impute_pd_dt df) (\<lambda>df.
      bind_res (impute_clm_adjud_ts df) (\<lambda>df.
      bind_res (remove_outliers (impute_categorical df)) (\<lambda>df.
      Inr (drop_duplicates df))))))))"

text \<open>
  The frame at four points of the run, for the claims that speak of a value "at the
  time the rule runs": after the date parsing (line 76), after the imputation of
  \<open>pd_dt\<close> (line 79), just before the outlier removal (line 88) and just before the
  removal of duplicates (line 100).
\<close>

definition after_dates :: "(cell \<Rightarrow> int option) \<Rightarrow> frame \<Rightarrow> error + frame" where
  "after_dates parse df0 =
     (let df = dropna_all df0 in
      bind_res (drop_columns (cols_to_drop df) Ignore df) (\<lambda>df.
      bind_res (drop_columns [''authzn_id''] Ignore df) (\<lambda>df.
      parse_dates parse df)))"

definition after_pd_dt :: "(cell \<Rightarrow> int option) \<Rightarrow> frame \<Rightarrow> error + frame" where
  "after_pd_dt parse df0 = bind_res (after_dates parse df0) impute_pd_dt"

definition before_outliers :: "(cell \<Rightarrow> int option) \<Rightarrow> frame \<Rightarrow> error + frame" where
  "before_outliers parse df0 =
     bind_res (after_pd_dt parse df0) (\<lambda>df.
     bind_res (impute_clm_adjud_ts df) (\<lambda>df. Inr (impute_categorical df)))"

definition before_dedup :: "(cell \<Rightarrow> int option) \<Rightarrow> frame \<Rightarrow> error + frame" where
  "before_dedup parse df0 = bind_res (before_outliers parse df0) remove_outliers"

subsection \<open>The connector and \<open>main\<close>\<close>

type_synonym env = "string \<rightharpoonup> string"

record session =
  host :: string
  token :: string
  cluster_id :: string
  http_path :: string

datatype event = Connect session | ReadTable string | SaveAsTable string | Stop

text \<open>The world outside the process: the tables of the engine and what was asked of it.\<close>

record world =
  tables :: "string \<rightharpoonup> table"
  trace :: "event list"

definition getenv :: "env \<Rightarrow> string \<Rightarrow> string option" where
  "getenv e k = e k"

definition getenv_default :: "env \<Rightarrow> string \<Rightarrow> string \<Rightarrow> string" where
  "getenv_default e k d = (case e k of None \<Rightarrow> d | Some v \<Rightarrow> v)"

text \<open>Python's truth value of \<open>os.getenv(k)\<close>: None and the empty string are false.\<close>

definition truthy :: "string option \<Rightarrow> bool" where
  "truthy v = (case v of None \<Rightarrow> False | Some s \<Rightarrow> s \<noteq> [])"

definition str_of :: "string option \<Rightarrow> string" where
  "str_of v = (case v of None \<Rightarrow> [] | Some s \<Rightarrow> s)"

definition missing_message :: string where
  "missing_message =
     ''Missing one of DATABRICKS_HOST/DATABRICKS_TOKEN/DATABRICKS_CLUSTER_ID/DATABRICKS_HTTP_PATH''"

definition get_spark :: "env \<Rightarrow> world \<Rightarrow> (error + session) \<times> world" where
  "get_spark e w =
     (let host = getenv e ''DATABRICKS_HOST'';
          token = getenv e ''DATABRICKS_TOKEN'';
          cluster_id = getenv e ''DATABRICKS_CLUSTER_ID'';
          http_path = getenv e ''DATABRICKS_HTTP_PATH''
      in if \<not> list_all truthy [host, token, cluster_id, http_path]
         then (Inl (RuntimeError missing_message), w)
         else (let s = \<lparr>host = str_of host, token = str_of token,
                         cluster_id = str_of cluster_id, http_path = str_of http_path\<rparr>
               in (Inr s, w\<lparr>trace := trace w @ [Connect s]\<rparr>)))"

text \<open>\<open>spark.read.table(name)\<close>: the engine's error for an unknown table propagates.\<close>

definition read_table :: "string \<Rightarrow> world \<Rightarrow> (error + table) \<times> world" where
  "read_table name w =
     (let w' = w\<lparr>trace := trace w @ [ReadTable name]\<rparr>
      in case tables w name of
           None \<Rightarrow> (Inl (AnalysisException name), w')
         | Some t \<Rightarrow> (Inr t, w'))"

text \<open>\<open>t.write.mode("overwrite").format("delta").saveAsTable(name)\<close>.\<close>

definition saveAsTable :: "string \<Rightarrow> table \<Rightarrow> world \<Rightarrow> world" where
  "saveAsTable name t w =
     w\<lparr>tables := (tables w)(name \<mapsto> t), trace := trace w @ [SaveAsTable name]\<rparr>"

definition main :: "(cell \<Rightarrow> int option) \<Rightarrow> env \<Rightarrow> world \<Rightarrow> (error + unit) \<times> world" where
  "main parse e w0 =
     (let CATALOG = getenv_default e ''DATABRICKS_CATALOG'' ''workspace'';
          SCHEMA = getenv_default e ''DATABRICKS_SCHEMA'' ''feature_store_project'';
          RAW_TABLE = CATALOG @ ''.'' @ SCHEMA @ ''.fct_claim'';
          CLEAN_TABLE = CATALOG @ ''.'' @ SCHEMA @ ''.cleaned_claims'';
          FEATURE_TABLE = CATALOG @ ''.'' @ SCHEMA @ ''.fct_claim_features_after_datacleanup''
      in case get_spark e w0 of
           (Inl err, w1) \<Rightarrow> (Inl err, w1)
         | (Inr spark, w1) \<Rightarrow>
             (case read_table RAW_TABLE w1 of
                (Inl err, w2) \<Rightarrow> (Inl err, w2)
              | (Inr spark_df, w2) \<Rightarrow>
                  (case clean parse (toPandas spark_df) of
                     Inl err \<Rightarrow> (Inl err, w2)
                   | Inr df \<Rightarrow>
                       (let spark_clean = createDataFrame df;
                            w3 = saveAsTable CLEAN_TABLE spark_clean w2;
                            w4 = saveAsTable FEATURE_TABLE spark_clean w3
                        in (Inr (), w4\<lparr>trace := trace w4 @ [Stop]\<rparr>)))))"

subsection \<open>Row-wise descriptions of the rules\<close>

text \<open>
  The rules that change cells work on whole columns. Each of them is shown below to do
  the same as one function applied to every row; the functions are defined here.
\<close>

definition map_rows :: "(row \<Rightarrow> row) \<Rightarrow> frame \<Rightarrow> frame" where
  "map_rows h f = f\<lparr>rows := map (\<lambda>(l, r). (l, h r)) (rows f)\<rparr>"

definition labels :: "frame \<Rightarrow> nat list" where
  "labels f = map fst (rows f)"

definition coerced :: "(cell \<Rightarrow> int option) \<Rightarrow> cell \<Rightarrow> cell" where
  "coerced parse v =
     (case v of
        NA \<Rightarrow> NA
      | Ts t \<Rightarrow> Ts t
      | _ \<Rightarrow> (case parse v of None \<Rightarrow> NA | Some t \<Rightarrow> if in_bounds t then Ts t else NA))"

definition shifted :: "int \<Rightarrow> cell \<Rightarrow> cell" where
  "shifted d v = (case v of Ts t \<Rightarrow> Ts (t + d) | _ \<Rightarrow> NA)"

definition parse_in :: "(cell \<Rightarrow> int option) \<Rightarrow> string list \<Rightarrow> string \<Rightarrow> row \<Rightarrow> row" where
  "parse_in parse cols c r = (if c \<in> set cols then r(c := coerced parse (r c)) else r)"

definition parse_row :: "(cell \<Rightarrow> int option) \<Rightarrow> string list \<Rightarrow> row \<Rightarrow> row" where
  "parse_row parse cols r =
     parse_in parse cols ''clm_sys_cret_dt''
       (parse_in parse cols ''clm_adjud_ts'' (parse_in parse cols ''pd_dt'' r))"

definition fill_pd_dt :: "string list \<Rightarrow> row \<Rightarrow> row" where
  "fill_pd_dt cols r =
     (if ''clm_sys_cret_dt'' \<in> set cols \<and> ''pd_dt'' \<in> set cols
      then r(''pd_dt'' := if r ''pd_dt'' = NA
                           then shifted (Timedelta_days 2) (r ''clm_sys_cret_dt'')
                           else r ''pd_dt'')
      else r)"

definition fill_clm_adjud_ts :: "string list \<Rightarrow> row \<Rightarrow> row" where
  "fill_clm_adjud_ts cols r =
     (if ''pd_dt'' \<in> set cols \<and> ''clm_adjud_ts'' \<in> set cols
      then r(''clm_adjud_ts'' := if r ''clm_adjud_ts'' = NA
                                  then shifted (- Timedelta_days 2) (r ''pd_dt'')
                                  else r ''clm_adjud_ts'')
      else r)"

definition fill_categorical :: "string list \<Rightarrow> row \<Rightarrow> row" where
  "fill_categorical cols r =
     (if ''procsr_apprv_pay_by_nm'' \<in> set cols
      then r(''procsr_apprv_pay_by_nm'' := if r ''procsr_apprv_pay_by_nm'' = NA
                                            then Str ''unknown''
                                            else r ''procsr_apprv_pay_by_nm'')
      else r)"

text \<open>The columns that rules 2 and 3 leave, and the frame after rule 3.\<close>

definition kept_columns :: "frame \<Rightarrow> string list" where
  "kept_columns f =
     filter (\<lambda>c. c \<notin> set [''authzn_id''])
       (filter (\<lambda>c. c \<notin> set (cols_to_drop (dropna_all f))) (columns f))"

definition after_drops :: "frame \<Rightarrow> frame" where
  "after_drops f = (dropna_all f)\<lparr>columns := kept_columns f\<rparr>"

text \<open>The cells of a row in the given columns: what two rows are compared on.\<close>

definition cells :: "string list \<Rightarrow> nat \<times> row \<Rightarrow> cell list" where
  "cells cols x = map (snd x) cols"

text \<open>
  The first occurrences of a list of rows, by position: the row at position \<open>i\<close> stays
  when no row before it has the same cells.
\<close>

definition first_occurrences :: "string list \<Rightarrow> (nat \<times> row) list \<Rightarrow> (nat \<times> row) list" where
  "first_occurrences cols xs =
     map (\<lambda>i. xs ! i)
       (filter (\<lambda>i. \<forall>j < i. cells cols (xs ! j) \<noteq> cells cols (xs ! i)) [0..<length xs])"


text \<open>The four variables \<open>get_spark\<close> requires.\<close>

definition required_vars :: "string list" where
  "required_vars =
     [''DATABRICKS_HOST'', ''DATABRICKS_TOKEN'', ''DATABRICKS_CLUSTER_ID'', ''DATABRICKS_HTTP_PATH'']"

text \<open>A value of a date column that \<open>to_datetime\<close> cannot turn into a timestamp.\<close>

definition fails_to_parse :: "(cell \<Rightarrow> int option) \<Rightarrow> cell \<Rightarrow> bool" where
  "fails_to_parse parse v =
     (case v of
        NA \<Rightarrow> False
      | Ts t \<Rightarrow> False
      | _ \<Rightarrow> (case parse v of None \<Rightarrow> True | Some t \<Rightarrow> \<not> in_bounds t))"

text \<open>The number of rows in which a column is missing.\<close>

definition missing_count :: "string \<Rightarrow> row list \<Rightarrow> nat" where
  "missing_count c rs = length (filter (\<lambda>r. r c = NA) rs)"

text \<open>No two rows of the frame have the same cells in all its columns.\<close>

definition duplicate_free :: "frame \<Rightarrow> bool" where
  "duplicate_free f = distinct (map (cells (columns f)) (rows f))"

text \<open>Some row of the frame is missing in every column of the frame.\<close>

definition has_empty_row :: "frame \<Rightarrow> bool" where
  "has_empty_row f = list_ex (\<lambda>(l, r). all_missing (columns f) r) (rows f)"

subsection \<open>Example inputs\<close>

text \<open>A row given by its non-missing cells.\<close>

definition row_of :: "(string \<times> cell) list \<Rightarrow> row" where
  "row_of kvs c = (case map_of kvs c of None \<Rightarrow> NA | Some v \<Rightarrow> v)"

definition no_world :: world where
  "no_world = \<lparr>tables = Map.empty, trace = []\<rparr>"

text \<open>A parser that knows one date, 2024-01-15, and nothing else.\<close>

definition one_date :: "cell \<Rightarrow> int option" where
  "one_date v = (if v = Str ''2024-01-15'' then Some 1705276800000000000 else None)"

text \<open>All four variables are set, the token to the empty string.\<close>

definition env_empty_token :: env where
  "env_empty_token =
     [''DATABRICKS_HOST'' \<mapsto> ''h'', ''DATABRICKS_TOKEN'' \<mapsto> [],
      ''DATABRICKS_CLUSTER_ID'' \<mapsto> ''c'', ''DATABRICKS_HTTP_PATH'' \<mapsto> ''p'']"

definition env_no_token :: env where
  "env_no_token =
     [''DATABRICKS_HOST'' \<mapsto> ''h'',
      ''DATABRICKS_CLUSTER_ID'' \<mapsto> ''c'', ''DATABRICKS_HTTP_PATH'' \<mapsto> ''p'']"

definition env_complete :: env where
  "env_complete =
     [''DATABRICKS_HOST'' \<mapsto> ''h'', ''DATABRICKS_TOKEN'' \<mapsto> ''t'',
      ''DATABRICKS_CLUSTER_ID'' \<mapsto> ''c'', ''DATABRICKS_HTTP_PATH'' \<mapsto> ''p'']"

text \<open>Two fully empty rows among five: column \<open>a\<close> is missing in three rows of five.\<close>

definition sparse_input :: table where
  "sparse_input =
     \<lparr>table_columns = [''a'', ''b''],
      table_rows =
        [row_of [], row_of [],
         row_of [(''a'', Num 1), (''b'', Num 2)],
         row_of [(''a'', Num 3), (''b'', Num 4)],
         row_of [(''b'', Num 5)]]\<rparr>"

text \<open>Column \<open>a\<close> is missing in two rows of three, none of them empty.\<close>

definition sparse_column_input :: table where
  "sparse_column_input =
     \<lparr>table_columns = [''a'', ''b''],
      table_rows =
        [row_of [(''b'', Num 1)], row_of [(''b'', Num 2)],
         row_of [(''a'', Num 3), (''b'', Num 4)]]\<rparr>"

text \<open>The first row has a value in the identifier column only.\<close>

definition id_only_input :: table where
  "id_only_input =
     \<lparr>table_columns = [''authzn_id'', ''x''],
      table_rows =
        [row_of [(''authzn_id'', Num 1)],
         row_of [(''authzn_id'', Num 2), (''x'', Num 5)],
         row_of [(''authzn_id'', Num 3), (''x'', Num 6)]]\<rparr>"

text \<open>A table whose only column is the identifier.\<close>

definition id_column_input :: table where
  "id_column_input =
     \<lparr>table_columns = [''authzn_id''],
      table_rows = [row_of [(''authzn_id'', Num 1)], row_of [(''authzn_id'', Num 2)]]\<rparr>"

text \<open>Rows 0 and 2 are the same, row 1 is not.\<close>

definition duplicate_input :: table where
  "duplicate_input =
     \<lparr>table_columns = [''x'', ''y''],
      table_rows =
        [row_of [(''x'', Num 1), (''y'', Str ''a'')],
         row_of [(''x'', Num 2), (''y'', Str ''a'')],
         row_of [(''x'', Num 1), (''y'', Str ''a'')]]\<rparr>"


text \<open>
  Three claims: the first without \<open>pd_dt\<close> and \<open>clm_adjud_ts\<close>, the second with a date
  that does not parse, the third complete.
\<close>

definition dates_input :: table where
  "dates_input =
     \<lparr>table_columns = [''pd_dt'', ''clm_adjud_ts'', ''clm_sys_cret_dt''],
      table_rows =
        [row_of [(''clm_sys_cret_dt'', Str ''2024-01-15'')],
         row_of [(''pd_dt'', Str ''2024-01-15''), (''clm_adjud_ts'', Str ''2024-01-15''),
                 (''clm_sys_cret_dt'', Str ''not-a-date'')],
         row_of [(''pd_dt'', Ts 5), (''clm_adjud_ts'', Ts 6), (''clm_sys_cret_dt'', Ts 7)]]\<rparr>"

section \<open>Basic facts\<close>

lemma bind_res_Inl [simp]: "bind_res (Inl e) k = Inl e"
  by (simp add: bind_res_def)

lemma bind_res_Inr [simp]: "bind_res (Inr x) k = k x"
  by (simp add: bind_res_def)

lemma bind_res_eq_Inr: "bind_res m k = Inr y \<longleftrightarrow> (\<exists>x. m = Inr x \<and> k x = Inr y)"
  by (cases m) simp_all

lemma bind_res_eq_Inl: "bind_res m k = Inl e \<longleftrightarrow> m = Inl e \<or> (\<exists>x. m = Inr x \<and> k x = Inl e)"
  by (cases m) simp_all

lemma collect_total: "(\<And>x. x \<in> set xs \<Longrightarrow> f x = Inr (g x)) \<Longrightarrow> collect (map f xs) = Inr (map g xs)"
  by (induction xs) simp_all

lemma collect_Inr: "collect (map f xs) = Inr ys \<Longrightarrow> list_all2 (\<lambda>x y. f x = Inr y) xs ys"
  by (induction xs arbitrary: ys) (auto split: sum.splits)

lemma collect_Inl: "collect (map f xs) = Inl e \<Longrightarrow> \<exists>x \<in> set xs. f x = Inl e"
  by (induction xs) (auto split: sum.splits)

lemma collect_map_eq:
  assumes "collect (map f xs) = Inr ys" and "\<And>x y. f x = Inr y \<Longrightarrow> y = g x"
  shows "ys = map g xs"
  using assms(1)
proof (induction xs arbitrary: ys)
  case Nil
  then show ?case by simp
next
  case (Cons x xs)
  then show ?case by (auto split: sum.splits dest: assms(2))
qed

lemma map2_map_right: "map2 F xs (map g xs) = map (\<lambda>x. F x (g x)) xs"
  by (induction xs) simp_all

lemma map2_map_both: "map2 F (map h xs) (map g xs) = map (\<lambda>x. F (h x) (g x)) xs"
  by (induction xs) simp_all

lemma columns_set_column [simp]: "columns (set_column f c s) = columns f"
  by (simp add: set_column_def)

lemma zip_map_right: "map G (zip xs (map g xs)) = map (\<lambda>x. G (x, g x)) xs"
  by (induction xs) simp_all

lemma rows_set_column_map:
  "rows (set_column f c (map (\<lambda>(l, r). h r) (rows f))) = map (\<lambda>(l, r). (l, r(c := h r))) (rows f)"
  unfolding set_column_def by (simp add: zip_map_right case_prod_unfold)

lemma fillna_series_map:
  "fillna_series (map h xs) (map g xs) = map (\<lambda>x. if h x = NA then g x else h x) xs"
  unfolding fillna_series_def by (induction xs) simp_all

lemma column_as_map: "column f c = map (\<lambda>(l, r). r c) (rows f)"
  by (simp add: column_def)


lemma columns_map_rows [simp]: "columns (map_rows h f) = columns f"
  by (simp add: map_rows_def)

lemma rows_map_rows: "rows (map_rows h f) = map (\<lambda>(l, r). (l, h r)) (rows f)"
  by (simp add: map_rows_def)

lemma labels_map_rows [simp]: "labels (map_rows h f) = labels f"
  by (simp add: map_rows_def labels_def case_prod_unfold)

lemma map_rows_comp: "map_rows h2 (map_rows h1 f) = map_rows (\<lambda>r. h2 (h1 r)) f"
  by (simp add: map_rows_def case_prod_unfold)

lemma map_rows_ident: "map_rows (\<lambda>r. r) f = f"
  by (simp add: map_rows_def)

lemma set_column_map_rows:
  "set_column f c (map (\<lambda>(l, r). h r) (rows f)) = map_rows (\<lambda>r. r(c := h r)) f"
  unfolding set_column_def map_rows_def by (simp add: zip_map_right case_prod_unfold)

lemma to_datetime_cell_Coerce: "to_datetime_cell parse Coerce v = Inr (coerced parse v)"
  by (cases v) (simp_all add: coerced_def split: option.splits)

lemma to_datetime_Coerce: "to_datetime parse Coerce s = Inr (map (coerced parse) s)"
  unfolding to_datetime_def by (rule collect_total) (rule to_datetime_cell_Coerce)

lemma parse_date_column_eq:
  "parse_date_column parse c f = Inr (map_rows (parse_in parse (columns f) c) f)"
proof (cases "c \<in> set (columns f)")
  case True
  have "map (coerced parse) (column f c) = map (\<lambda>(l, r). coerced parse (r c)) (rows f)"
    by (simp add: column_def case_prod_unfold)
  then have "set_column f c (map (coerced parse) (column f c))
               = map_rows (\<lambda>r. r(c := coerced parse (r c))) f"
    by (simp add: set_column_map_rows)
  moreover have "parse_in parse (columns f) c = (\<lambda>r. r(c := coerced parse (r c)))"
    using True by (simp add: parse_in_def fun_eq_iff)
  ultimately show ?thesis
    using True by (simp add: parse_date_column_def to_datetime_Coerce)
next
  case False
  then have "parse_in parse (columns f) c = (\<lambda>r. r)"
    by (simp add: parse_in_def fun_eq_iff)
  then show ?thesis
    using False by (simp add: parse_date_column_def map_rows_ident)
qed

lemma parse_dates_eq: "parse_dates parse f = Inr (map_rows (parse_row parse (columns f)) f)"
  by (simp add: parse_dates_def date_columns_def parse_date_column_eq map_rows_comp parse_row_def [abs_def])

lemma cell_add_shifted: "cell_add v d = Inr w \<Longrightarrow> w = shifted d v"
  by (cases v) (auto simp: shifted_def split: if_splits)

lemma series_add_eq:
  assumes "series_add (column f c) d = Inr other"
  shows "other = map (\<lambda>(l, r). shifted d (r c)) (rows f)"
proof -
  have "other = map (shifted d) (column f c)"
    using assms unfolding series_add_def by (rule collect_map_eq) (rule cell_add_shifted)
  then show ?thesis by (simp add: column_def case_prod_unfold)
qed

lemma series_add_cells:
  assumes "series_add (column f c) d = Inr other" and "(l, r) \<in> set (rows f)"
  shows "cell_add (r c) d = Inr (shifted d (r c))"
proof -
  have "list_all2 (\<lambda>x y. cell_add x d = Inr y) (column f c) other"
    using assms(1) unfolding series_add_def by (rule collect_Inr)
  moreover have "r c \<in> set (column f c)"
    using assms(2) by (force simp: column_def)
  ultimately obtain w where "cell_add (r c) d = Inr w"
    by (auto simp: list_all2_conv_all_nth in_set_conv_nth)
  then show ?thesis by (simp add: cell_add_shifted)
qed

lemma fill_column_map_rows:
  "set_column f c (fillna_series (column f c) (map (\<lambda>(l, r). g r) (rows f)))
     = map_rows (\<lambda>r. r(c := if r c = NA then g r else r c)) f"
proof -
  have "fillna_series (column f c) (map (\<lambda>(l, r). g r) (rows f))
          = map (\<lambda>(l, r). if r c = NA then g r else r c) (rows f)"
    by (simp add: column_def fillna_series_map case_prod_unfold)
  then show ?thesis by (simp add: set_column_map_rows)
qed

lemma impute_pd_dt_eq:
  assumes "impute_pd_dt f = Inr g"
  shows "g = map_rows (fill_pd_dt (columns f)) f"
proof (cases "''clm_sys_cret_dt'' \<in> set (columns f) \<and> ''pd_dt'' \<in> set (columns f)")
  case True
  then obtain other where o: "series_add (column f ''clm_sys_cret_dt'') (Timedelta_days 2) = Inr other"
    and g: "g = set_column f ''pd_dt'' (fillna_series (column f ''pd_dt'') other)"
    using assms by (auto simp: impute_pd_dt_def split: sum.splits)
  have "fill_pd_dt (columns f) = (\<lambda>r. r(''pd_dt'' := if r ''pd_dt'' = NA
          then shifted (Timedelta_days 2) (r ''clm_sys_cret_dt'') else r ''pd_dt''))"
    using True by (simp add: fill_pd_dt_def fun_eq_iff)
  then show ?thesis
    unfolding g series_add_eq [OF o] by (simp only: fill_column_map_rows)
next
  case False
  then have "fill_pd_dt (columns f) = (\<lambda>r. r)"
    by (auto simp: fill_pd_dt_def fun_eq_iff)
  then show ?thesis
    using False assms by (auto simp: impute_pd_dt_def map_rows_ident)
qed

lemma impute_clm_adjud_ts_eq:
  assumes "impute_clm_adjud_ts f = Inr g"
  shows "g = map_rows (fill_clm_adjud_ts (columns f)) f"
proof (cases "''pd_dt'' \<in> set (columns f) \<and> ''clm_adjud_ts'' \<in> set (columns f)")
  case True
  then obtain other where o: "series_add (column f ''pd_dt'') (- Timedelta_days 2) = Inr other"
    and g: "g = set_column f ''clm_adjud_ts'' (fillna_series (column f ''clm_adjud_ts'') other)"
    using assms by (auto simp: impute_clm_adjud_ts_def series_sub_def split: sum.splits)
  have "fill_clm_adjud_ts (columns f) = (\<lambda>r. r(''clm_adjud_ts'' := if r ''clm_adjud_ts'' = NA
          then shifted (- Timedelta_days 2) (r ''pd_dt'') else r ''clm_adjud_ts''))"
    using True by (simp add: fill_clm_adjud_ts_def fun_eq_iff)
  then show ?thesis
    unfolding g series_add_eq [OF o] by (simp only: fill_column_map_rows)
next
  case False
  then have "fill_clm_adjud_ts (columns f) = (\<lambda>r. r)"
    by (auto simp: fill_clm_adjud_ts_def fun_eq_iff)
  then show ?thesis
    using False assms by (auto simp: impute_clm_adjud_ts_def map_rows_ident)
qed

lemma impute_categorical_eq: "impute_categorical f = map_rows (fill_categorical (columns f)) f"
proof (cases "''procsr_apprv_pay_by_nm'' \<in> set (columns f)")
  case True
  have "fillna_value (column f ''procsr_apprv_pay_by_nm'') (Str ''unknown'')
          = map (\<lambda>(l, r). if r ''procsr_apprv_pay_by_nm'' = NA then Str ''unknown''
                            else r ''procsr_apprv_pay_by_nm'') (rows f)"
    by (simp add: fillna_value_def column_def case_prod_unfold)
  moreover have "fill_categorical (columns f) = (\<lambda>r. r(''procsr_apprv_pay_by_nm'' :=
      if r ''procsr_apprv_pay_by_nm'' = NA then Str ''unknown'' else r ''procsr_apprv_pay_by_nm''))"
    using True by (simp add: fill_categorical_def fun_eq_iff)
  ultimately show ?thesis
    using True by (simp add: impute_categorical_def set_column_map_rows)
next
  case False
  then have "fill_categorical (columns f) = (\<lambda>r. r)"
    by (simp add: fill_categorical_def fun_eq_iff)
  then show ?thesis
    using False by (simp add: impute_categorical_def map_rows_ident)
qed

subsection \<open>The stages of the cleaner\<close>

lemma drop_columns_Ignore:
  "drop_columns names Ignore f = Inr (f\<lparr>columns := filter (\<lambda>c. c \<notin> set names) (columns f)\<rparr>)"
  by (simp add: drop_columns_def)

lemma columns_dropna_all [simp]: "columns (dropna_all f) = columns f"
  by (simp add: dropna_all_def)

lemma after_dates_eq:
  "after_dates parse f = Inr (map_rows (parse_row parse (kept_columns f)) (after_drops f))"
  by (simp add: after_dates_def Let_def drop_columns_Ignore parse_dates_eq kept_columns_def
      after_drops_def)

lemma columns_after_drops [simp]: "columns (after_drops f) = kept_columns f"
  by (simp add: after_drops_def)

lemma rows_after_drops: "rows (after_drops f) = rows (dropna_all f)"
  by (simp add: after_drops_def)

lemma after_pd_dt_Inr:
  assumes "after_pd_dt parse f = Inr Q"
  shows "Q = map_rows (fill_pd_dt (kept_columns f))
               (map_rows (parse_row parse (kept_columns f)) (after_drops f))"
  using assms impute_pd_dt_eq [of "map_rows (parse_row parse (kept_columns f)) (after_drops f)" Q]
  by (simp add: after_pd_dt_def after_dates_eq)

lemma before_outliers_Inr:
  assumes "before_outliers parse f = Inr B"
  obtains Q where "after_pd_dt parse f = Inr Q"
    and "impute_clm_adjud_ts Q = Inr (map_rows (fill_clm_adjud_ts (kept_columns f)) Q)"
    and "B = map_rows (fill_categorical (kept_columns f))
               (map_rows (fill_clm_adjud_ts (kept_columns f)) Q)"
proof -
  from assms obtain Q A where Q: "after_pd_dt parse f = Inr Q"
    and A: "impute_clm_adjud_ts Q = Inr A" and B: "B = impute_categorical A"
    by (auto simp: before_outliers_def bind_res_eq_Inr)
  have cQ: "columns Q = kept_columns f"
    using after_pd_dt_Inr [OF Q] by simp
  have A': "A = map_rows (fill_clm_adjud_ts (kept_columns f)) Q"
    using impute_clm_adjud_ts_eq [OF A] cQ by simp
  show thesis
  proof (rule that [OF Q])
    show "impute_clm_adjud_ts Q = Inr (map_rows (fill_clm_adjud_ts (kept_columns f)) Q)"
      using A A' by simp
    show "B = map_rows (fill_categorical (kept_columns f))
               (map_rows (fill_clm_adjud_ts (kept_columns f)) Q)"
      using B A' cQ by (simp add: impute_categorical_eq)
  qed
qed

lemma columns_before_outliers:
  assumes "before_outliers parse f = Inr B"
  shows "columns B = kept_columns f"
proof -
  from assms obtain Q where Q: "after_pd_dt parse f = Inr Q"
    and B: "B = map_rows (fill_categorical (kept_columns f))
               (map_rows (fill_clm_adjud_ts (kept_columns f)) Q)"
    by (rule before_outliers_Inr)
  show ?thesis using B after_pd_dt_Inr [OF Q] by simp
qed

lemma clean_stages:
  "clean parse f = bind_res (before_dedup parse f) (\<lambda>C. Inr (drop_duplicates C))"
  by (simp add: clean_def before_dedup_def before_outliers_def after_pd_dt_def after_dates_def
      Let_def bind_res_def split: sum.splits)

lemma clean_Inr:
  assumes "clean parse f = Inr out"
  obtains B C where "before_outliers parse f = Inr B" and "remove_outliers B = Inr C"
    and "before_dedup parse f = Inr C" and "out = drop_duplicates C"
  using assms unfolding clean_stages before_dedup_def by (auto simp: bind_res_eq_Inr)

lemma remove_outliers_columns: "remove_outliers B = Inr C \<Longrightarrow> columns C = columns B"
  by (auto simp: remove_outliers_def bind_res_eq_Inr split: if_splits)

lemma remove_outliers_rows:
  assumes "remove_outliers B = Inr C"
  obtains keep where "rows C = filter keep (rows B)"
proof (cases "''totl_billd_amt'' \<in> set (columns B)")
  case True
  with assms show thesis
    by (auto simp: remove_outliers_def bind_res_eq_Inr intro: that)
next
  case False
  with assms have "rows C = filter (\<lambda>x. True) (rows B)"
    by (simp add: remove_outliers_def)
  then show thesis by (rule that)
qed

lemma columns_drop_duplicates [simp]: "columns (drop_duplicates f) = columns f"
  by (simp add: drop_duplicates_def)

lemma set_keep_first: "set (keep_first cols seen xs) \<subseteq> set xs"
  by (induction cols seen xs rule: keep_first.induct) auto

lemma distinct_keep_first:
  "distinct (map fst xs) \<Longrightarrow> distinct (map fst (keep_first cols seen xs))"
proof (induction cols seen xs rule: keep_first.induct)
  case (1 cols seen)
  then show ?case by simp
next
  case (2 cols seen l r rs)
  have "l \<notin> fst ` set (keep_first cols (map r cols # seen) rs)"
    using 2(3) set_keep_first [of cols "map r cols # seen" rs] by auto
  with 2 show ?case by auto
qed

lemma set_rows_drop_duplicates: "set (rows (drop_duplicates f)) \<subseteq> set (rows f)"
  using set_keep_first by (auto simp: drop_duplicates_def)

lemma distinct_labels_drop_duplicates:
  "distinct (labels f) \<Longrightarrow> distinct (labels (drop_duplicates f))"
  by (simp add: drop_duplicates_def labels_def distinct_keep_first)

lemma clean_columns:
  assumes "clean parse f = Inr out"
  shows "columns out = kept_columns f"
proof -
  from assms obtain B C where "before_outliers parse f = Inr B" "remove_outliers B = Inr C"
    "out = drop_duplicates C"
    by (rule clean_Inr)
  then show ?thesis
    by (simp add: remove_outliers_columns columns_before_outliers)
qed

lemma clean_rows_subset:
  assumes "clean parse f = Inr out" and "before_outliers parse f = Inr B"
  shows "set (rows out) \<subseteq> set (rows B)"
proof -
  from assms obtain C where C: "remove_outliers B = Inr C" and out: "out = drop_duplicates C"
    by (auto elim!: clean_Inr)
  from C obtain keep where "rows C = filter keep (rows B)"
    by (rule remove_outliers_rows)
  then have "set (rows C) \<subseteq> set (rows B)" by auto
  with set_rows_drop_duplicates [of C] out show ?thesis by blast
qed

subsection \<open>The errors the cleaner can raise\<close>

lemma cell_add_Inl: "cell_add v d = Inl e \<Longrightarrow> e = TypeError \<or> e = OverflowError"
  by (cases v) (auto split: if_splits)

lemma series_add_Inl: "series_add s d = Inl e \<Longrightarrow> e = TypeError \<or> e = OverflowError"
  unfolding series_add_def by (auto dest!: collect_Inl cell_add_Inl)

lemma impute_pd_dt_Inl: "impute_pd_dt f = Inl e \<Longrightarrow> e = TypeError \<or> e = OverflowError"
  by (auto simp: impute_pd_dt_def split: if_splits sum.splits dest: series_add_Inl)

lemma impute_clm_adjud_ts_Inl:
  "impute_clm_adjud_ts f = Inl e \<Longrightarrow> e = TypeError \<or> e = OverflowError"
  by (auto simp: impute_clm_adjud_ts_def series_sub_def split: if_splits sum.splits
      dest: series_add_Inl)

lemma numeric_cell_Inl: "numeric_cell v = Inl e \<Longrightarrow> e = TypeError"
  by (cases v) auto

lemma quantile_Inl: "quantile s q = Inl e \<Longrightarrow> e = TypeError"
  by (auto simp: quantile_def Let_def split: sum.splits if_splits dest!: collect_Inl numeric_cell_Inl)

lemma iqr_bounds_Inl: "iqr_bounds s = Inl e \<Longrightarrow> e = TypeError"
  by (auto simp: iqr_bounds_def bind_res_eq_Inl Let_def dest: quantile_Inl)

lemma remove_outliers_Inl: "remove_outliers f = Inl e \<Longrightarrow> e = TypeError"
  by (auto simp: remove_outliers_def bind_res_eq_Inl split: if_splits dest: iqr_bounds_Inl)

lemma clean_Inl:
  assumes "clean parse f = Inl e"
  shows "e = TypeError \<or> e = OverflowError"
  using assms
  by (auto simp: clean_def Let_def drop_columns_Ignore parse_dates_eq bind_res_eq_Inl
      dest: impute_pd_dt_Inl impute_clm_adjud_ts_Inl remove_outliers_Inl)

subsection \<open>Evaluation on the examples\<close>

lemmas stage_defs = after_dates_def after_pd_dt_def before_outliers_def before_dedup_def

lemmas eval_defs = toPandas_def clean_def dropna_all_def all_missing_def cols_to_drop_def missing_pct_def column_def nan_gt_def drop_columns_def bind_res_def parse_dates_def date_columns_def parse_date_column_def impute_pd_dt_def impute_clm_adjud_ts_def impute_categorical_def remove_outliers_def drop_duplicates_def records_def Let_def upt_conv_Cons row_of_def 
  to_datetime_def set_column_def series_add_def series_sub_def fillna_series_def fillna_value_def quantile_def iqr_bounds_def nan_op_def present_values_def quantile_linear_def Timedelta_days_def in_bounds_def ts_min_def ts_max_def one_date_def

section \<open>The claims\<close>

text \<open>
  Claim C9. The column \<open>authzn_id\<close> is absent from the output frame of every run of the
  cleaner, whether or not the input has it; where the input has no such column, line 71
  returns the frame as it is, and the cleaner never raises a KeyError.
\<close>

theorem identifier_column_absent:
  "(clean parse f = Inr out \<longrightarrow> ''authzn_id'' \<notin> set (columns out))
   \<and> (''authzn_id'' \<notin> set (columns df) \<longrightarrow> drop_columns [''authzn_id''] Ignore df = Inr df)
   \<and> clean parse f \<noteq> Inl (KeyError ks)"
proof (intro conjI impI)
  assume "clean parse f = Inr out"
  then have "columns out = kept_columns f" by (rule clean_columns)
  then show "''authzn_id'' \<notin> set (columns out)" by (simp add: kept_columns_def)
next
  assume "''authzn_id'' \<notin> set (columns df)"
  then have "filter (\<lambda>c. c \<notin> set [''authzn_id'']) (columns df) = columns df"
    by (auto intro: filter_True)
  then show "drop_columns [''authzn_id''] Ignore df = Inr df"
    by (simp add: drop_columns_Ignore)
next
  show "clean parse f \<noteq> Inl (KeyError ks)"
    using clean_Inl [of parse f "KeyError ks"] by auto
qed

theorem identifier_column_absent_witness:
  "''authzn_id'' \<in> set (columns (toPandas id_only_input))
   \<and> map_sum id columns (clean one_date (toPandas id_only_input)) = Inr [''x'']
   \<and> ''authzn_id'' \<notin> set (columns (toPandas duplicate_input))
   \<and> drop_columns [''authzn_id''] Ignore (toPandas duplicate_input) = Inr (toPandas duplicate_input)"
proof -
  have out: "clean one_date (toPandas id_only_input) =
      Inr \<lparr>columns = [''x''],
           rows = zip [0..<3] (table_rows id_only_input)\<rparr>"
    by (simp add: id_only_input_def eval_defs)
  have absent: "''authzn_id'' \<notin> set (columns (toPandas duplicate_input))"
    by (simp add: duplicate_input_def toPandas_def)
  from identifier_column_absent [of one_date "toPandas id_only_input" _ "toPandas duplicate_input"] out absent
  show ?thesis
    by (simp add: id_only_input_def toPandas_def)
qed

text \<open>
  Claim C10. A required variable set to the empty string is treated as an absent one:
  \<open>get_spark\<close> raises the same error, \<open>main\<close> ends with it, and the world is as it was
  (no connection, no read).
\<close>

theorem empty_value_like_absent:
  assumes "k \<in> set required_vars" and "e k = Some []"
  shows "get_spark e w = (Inl (RuntimeError missing_message), w)
         \<and> get_spark (e(k := None)) w = get_spark e w
         \<and> main parse e w = (Inl (RuntimeError missing_message), w)"
proof -
  have 1: "get_spark e w = (Inl (RuntimeError missing_message), w)"
    using assms by (auto simp: get_spark_def required_vars_def getenv_def truthy_def Let_def)
  have 2: "get_spark (e(k := None)) w = (Inl (RuntimeError missing_message), w)"
    using assms(1) by (auto simp: get_spark_def required_vars_def getenv_def truthy_def Let_def)
  show ?thesis using 1 2 by (simp add: main_def Let_def)
qed

theorem empty_value_like_absent_witness:
  "''DATABRICKS_TOKEN'' \<in> set required_vars
   \<and> env_empty_token ''DATABRICKS_TOKEN'' = Some []
   \<and> env_empty_token(''DATABRICKS_TOKEN'' := None) = env_no_token
   \<and> get_spark env_empty_token no_world = (Inl (RuntimeError missing_message), no_world)
   \<and> get_spark env_no_token no_world = (Inl (RuntimeError missing_message), no_world)
   \<and> main one_date env_empty_token no_world = (Inl (RuntimeError missing_message), no_world)"
proof -
  have k: "''DATABRICKS_TOKEN'' \<in> set required_vars"
    by (simp add: required_vars_def)
  have v: "env_empty_token ''DATABRICKS_TOKEN'' = Some []"
    by (simp add: env_empty_token_def)
  have eq: "env_empty_token(''DATABRICKS_TOKEN'' := None) = env_no_token"
    by (auto simp: env_empty_token_def env_no_token_def fun_eq_iff)
  from empty_value_like_absent
         [where k = "''DATABRICKS_TOKEN''" and e = env_empty_token and w = no_world
            and parse = one_date, OF k v] k v eq
  show ?thesis by simp
qed

text \<open>
  Claim C7, as stated, fails in its last part: with all four variables set and the token
  set to the empty string, \<open>get_spark\<close> raises the configuration error.
\<close>

theorem connector_check_counterexample:
  "getenv env_empty_token ''DATABRICKS_HOST'' = Some ''h''
   \<and> getenv env_empty_token ''DATABRICKS_TOKEN'' = Some []
   \<and> getenv env_empty_token ''DATABRICKS_CLUSTER_ID'' = Some ''c''
   \<and> getenv env_empty_token ''DATABRICKS_HTTP_PATH'' = Some ''p''
   \<and> get_spark env_empty_token no_world = (Inl (RuntimeError missing_message), no_world)"
  by (simp add: env_empty_token_def getenv_def get_spark_def truthy_def)

text \<open>
  Claim C7, amended. If one of the four variables is absent, \<open>get_spark\<close> raises a
  RuntimeError whose message is the same whichever variable it is, \<open>main\<close> ends with that
  error and leaves the world as it was, so no table is read. If all four are set to
  non-empty strings, \<open>get_spark\<close> returns a session and raises nothing.
\<close>

theorem connector_check:
  "(k \<in> set required_vars \<and> e k = None \<longrightarrow>
      get_spark e w = (Inl (RuntimeError missing_message), w)
      \<and> main parse e w = (Inl (RuntimeError missing_message), w))
   \<and> ((\<forall>k \<in> set required_vars. \<exists>v. e k = Some v \<and> v \<noteq> []) \<longrightarrow>
      get_spark e w =
        (Inr \<lparr>host = str_of (e ''DATABRICKS_HOST''), token = str_of (e ''DATABRICKS_TOKEN''),
              cluster_id = str_of (e ''DATABRICKS_CLUSTER_ID''),
              http_path = str_of (e ''DATABRICKS_HTTP_PATH'')\<rparr>,
         w\<lparr>trace := trace w @
              [Connect \<lparr>host = str_of (e ''DATABRICKS_HOST''),
                        token = str_of (e ''DATABRICKS_TOKEN''),
                        cluster_id = str_of (e ''DATABRICKS_CLUSTER_ID''),
                        http_path = str_of (e ''DATABRICKS_HTTP_PATH'')\<rparr>]\<rparr>))"
proof (intro conjI impI)
  assume a: "k \<in> set required_vars \<and> e k = None"
  then show g: "get_spark e w = (Inl (RuntimeError missing_message), w)"
    by (auto simp: get_spark_def required_vars_def getenv_def truthy_def Let_def)
  then show "main parse e w = (Inl (RuntimeError missing_message), w)"
    by (simp add: main_def Let_def)
next
  assume "\<forall>k \<in> set required_vars. \<exists>v. e k = Some v \<and> v \<noteq> []"
  then have "list_all truthy [getenv e ''DATABRICKS_HOST'', getenv e ''DATABRICKS_TOKEN'',
      getenv e ''DATABRICKS_CLUSTER_ID'', getenv e ''DATABRICKS_HTTP_PATH'']"
    by (auto simp: required_vars_def getenv_def truthy_def)
  then show "get_spark e w =
        (Inr \<lparr>host = str_of (e ''DATABRICKS_HOST''), token = str_of (e ''DATABRICKS_TOKEN''),
              cluster_id = str_of (e ''DATABRICKS_CLUSTER_ID''),
              http_path = str_of (e ''DATABRICKS_HTTP_PATH'')\<rparr>,
         w\<lparr>trace := trace w @
              [Connect \<lparr>host = str_of (e ''DATABRICKS_HOST''),
                        token = str_of (e ''DATABRICKS_TOKEN''),
                        cluster_id = str_of (e ''DATABRICKS_CLUSTER_ID''),
                        http_path = str_of (e ''DATABRICKS_HTTP_PATH'')\<rparr>]\<rparr>)"
    unfolding get_spark_def Let_def getenv_def by simp
qed

theorem connector_check_witness:
  "''DATABRICKS_TOKEN'' \<in> set required_vars \<and> env_no_token ''DATABRICKS_TOKEN'' = None
   \<and> get_spark env_no_token no_world = (Inl (RuntimeError missing_message), no_world)
   \<and> main one_date env_no_token no_world = (Inl (RuntimeError missing_message), no_world)
   \<and> list_all (\<lambda>k. truthy (env_complete k)) required_vars
   \<and> get_spark env_complete no_world =
        (Inr \<lparr>host = ''h'', token = ''t'', cluster_id = ''c'', http_path = ''p''\<rparr>,
         \<lparr>tables = Map.empty,
          trace = [Connect \<lparr>host = ''h'', token = ''t'', cluster_id = ''c'', http_path = ''p''\<rparr>]\<rparr>)"
proof -
  have k: "''DATABRICKS_TOKEN'' \<in> set required_vars \<and> env_no_token ''DATABRICKS_TOKEN'' = None"
    by (simp add: required_vars_def env_no_token_def)
  have c: "\<forall>k \<in> set required_vars. \<exists>v. env_complete k = Some v \<and> v \<noteq> []"
    by (simp add: required_vars_def env_complete_def)
  have t: "list_all (\<lambda>k. truthy (env_complete k)) required_vars"
    by (simp add: required_vars_def env_complete_def truthy_def)
  from connector_check [where k = "''DATABRICKS_TOKEN''" and e = env_no_token and w = no_world
      and parse = one_date]
    connector_check [where e = env_complete and w = no_world] k c t
  show ?thesis
    by (simp add: env_complete_def str_of_def no_world_def)
qed

text \<open>Facts about the date parsing, for claim C8.\<close>

lemma coerced_fails: "fails_to_parse parse v \<Longrightarrow> coerced parse v = NA"
  by (cases v) (auto simp: fails_to_parse_def coerced_def split: option.splits)

lemma parse_row_apply:
  "parse_row parse cols r c =
     (if c \<in> set date_columns \<and> c \<in> set cols then coerced parse (r c) else r c)"
  by (simp add: parse_row_def parse_in_def date_columns_def)

text \<open>
  Claim C8. The date parsing of lines 74 to 76 returns a frame for every input frame and
  every parser: it never raises. It keeps the columns and the rows, and in each of the
  three date columns that is present, a value that fails to parse is missing afterwards.
\<close>

theorem date_parsing_never_raises:
  "\<exists>g. parse_dates parse f = Inr g \<and> columns g = columns f \<and> labels g = labels f
     \<and> (\<forall>c \<in> set date_columns. c \<in> set (columns f) \<longrightarrow>
          (\<forall>i < length (rows f).
             fails_to_parse parse (snd (rows f ! i) c) \<longrightarrow> snd (rows g ! i) c = NA))"
proof (intro exI conjI ballI impI allI)
  show "parse_dates parse f = Inr (map_rows (parse_row parse (columns f)) f)"
    by (rule parse_dates_eq)
  show "columns (map_rows (parse_row parse (columns f)) f) = columns f" by simp
  show "labels (map_rows (parse_row parse (columns f)) f) = labels f" by simp
next
  fix c i
  assume c: "c \<in> set date_columns" "c \<in> set (columns f)" and i: "i < length (rows f)"
    and bad: "fails_to_parse parse (snd (rows f ! i) c)"
  have "snd (rows (map_rows (parse_row parse (columns f)) f) ! i)
          = parse_row parse (columns f) (snd (rows f ! i))"
    using i by (simp add: rows_map_rows case_prod_unfold)
  then show "snd (rows (map_rows (parse_row parse (columns f)) f) ! i) c = NA"
    using c bad by (simp add: parse_row_apply coerced_fails)
qed

theorem date_parsing_never_raises_witness:
  "''clm_sys_cret_dt'' \<in> set date_columns
   \<and> ''clm_sys_cret_dt'' \<in> set (columns (toPandas dates_input))
   \<and> snd (rows (toPandas dates_input) ! 1) ''clm_sys_cret_dt'' = Str ''not-a-date''
   \<and> fails_to_parse one_date (Str ''not-a-date'')
   \<and> map_sum id records (parse_dates one_date (toPandas dates_input)) =
       Inr [(0, [NA, NA, Ts 1705276800000000000]),
            (1, [Ts 1705276800000000000, Ts 1705276800000000000, NA]),
            (2, [Ts 5, Ts 6, Ts 7])]"
proof -
  have ev: "map_sum id records (parse_dates one_date (toPandas dates_input)) =
       Inr [(0, [NA, NA, Ts 1705276800000000000]),
            (1, [Ts 1705276800000000000, Ts 1705276800000000000, NA]),
            (2, [Ts 5, Ts 6, Ts 7])]"
    by (simp add: dates_input_def eval_defs)
  have pre: "''clm_sys_cret_dt'' \<in> set date_columns
      \<and> ''clm_sys_cret_dt'' \<in> set (columns (toPandas dates_input))
      \<and> snd (rows (toPandas dates_input) ! 1) ''clm_sys_cret_dt'' = Str ''not-a-date''
      \<and> fails_to_parse one_date (Str ''not-a-date'')"
    by (simp add: date_columns_def dates_input_def toPandas_def row_of_def fails_to_parse_def
        one_date_def upt_conv_Cons)
  from date_parsing_never_raises [of one_date "toPandas dates_input"] ev pre
  show ?thesis by simp
qed

text \<open>Facts about the missing percentage, for claim C2.\<close>

lemma missing_count_column:
  "length (filter (\<lambda>v. v = NA) (column f c)) = missing_count c (map snd (rows f))"
  by (simp add: column_def missing_count_def filter_map o_def case_prod_unfold)

lemma pct_above_40:
  assumes "0 < n"
  shows "(40 < rat_of_nat k / rat_of_nat n * 100) \<longleftrightarrow> 40 * n < 100 * k"
proof -
  have "(40 < rat_of_nat k / rat_of_nat n * 100) \<longleftrightarrow> (rat_of_nat (40 * n) < rat_of_nat (100 * k))"
    using assms by (simp add: field_simps)
  also have "\<dots> \<longleftrightarrow> 40 * n < 100 * k"
    by (simp only: of_nat_less_iff)
  finally show ?thesis .
qed

lemma nan_gt_missing_pct:
  "nan_gt (missing_pct f c) 40
     \<longleftrightarrow> 40 * length (rows f) < 100 * missing_count c (map snd (rows f))"
proof (cases "rows f = []")
  case True
  then show ?thesis by (simp add: missing_pct_def nan_gt_def missing_count_def)
next
  case False
  then have "0 < length (rows f)" by simp
  from pct_above_40 [OF this] False show ?thesis
    by (simp add: missing_pct_def nan_gt_def missing_count_column)
qed

text \<open>
  Claim C2, as stated, fails: in the example column \<open>a\<close> is missing in three of the five
  rows of the input (60 percent), and the output has the column. The two fully empty
  rows are dropped at line 61, before the percentage is taken at line 64, and of the
  three rows left one is missing in \<open>a\<close>.
\<close>

theorem sparse_columns_counterexample:
  "40 * length (table_rows sparse_input) < 100 * missing_count ''a'' (table_rows sparse_input)
   \<and> map_sum id columns (clean one_date (toPandas sparse_input)) = Inr [''a'', ''b'']"
  by (simp add: sparse_input_def missing_count_def eval_defs)

text \<open>
  Claim C2, amended. For every input frame and every column: if the fraction of missing
  values of the column, taken over the rows that are left once the fully empty rows are
  dropped, is strictly above 40 percent, the column is absent from the output frame.
\<close>

theorem sparse_columns_absent:
  assumes "clean parse f = Inr out"
    and "40 * length (rows (dropna_all f)) < 100 * missing_count c (map snd (rows (dropna_all f)))"
  shows "c \<notin> set (columns out)"
proof -
  have "columns out = kept_columns f"
    using assms(1) by (rule clean_columns)
  moreover have "c \<in> set (columns f) \<Longrightarrow> c \<in> set (cols_to_drop (dropna_all f))"
    using assms(2) by (simp add: cols_to_drop_def nan_gt_missing_pct)
  ultimately show ?thesis
    by (auto simp: kept_columns_def)
qed

theorem sparse_columns_absent_witness:
  "map_sum id records (Inr (dropna_all (toPandas sparse_column_input)) :: error + frame)
     = Inr [(0, [NA, Num 1]), (1, [NA, Num 2]), (2, [Num 3, Num 4])]
   \<and> map_sum id columns (clean one_date (toPandas sparse_column_input)) = Inr [''b'']
   \<and> ''a'' \<notin> set [''b'']"
proof -
  have out: "clean one_date (toPandas sparse_column_input) =
      Inr \<lparr>columns = [''b''], rows = zip [0..<3] (table_rows sparse_column_input)\<rparr>"
    by (simp add: sparse_column_input_def eval_defs)
  have pct: "40 * length (rows (dropna_all (toPandas sparse_column_input)))
      < 100 * missing_count ''a'' (map snd (rows (dropna_all (toPandas sparse_column_input))))"
    by (simp add: sparse_column_input_def missing_count_def eval_defs)
  have rec: "map_sum id records (Inr (dropna_all (toPandas sparse_column_input)) :: error + frame)
     = Inr [(0, [NA, Num 1]), (1, [NA, Num 2]), (2, [Num 3, Num 4])]"
    by (simp add: sparse_column_input_def eval_defs)
  from sparse_columns_absent [OF out pct] out rec show ?thesis by simp
qed








text \<open>Facts about the removal of duplicates, for claim C6.\<close>

lemma keep_first_Cons:
  "keep_first cols seen (y # rs) =
     (if cells cols y \<in> set seen then keep_first cols seen rs
      else y # keep_first cols (cells cols y # seen) rs)"
  by (cases y) (simp add: cells_def)

lemma keep_first_snoc:
  "keep_first cols seen (xs @ [x]) =
     keep_first cols seen xs
       @ (if cells cols x \<in> set seen \<union> cells cols ` set xs then [] else [x])"
proof (induction xs arbitrary: seen)
  case Nil
  then show ?case by (simp add: keep_first_Cons del: keep_first.simps(2))
next
  case (Cons y ys)
  show ?case
  proof (cases "cells cols y \<in> set seen")
    case True
    then show ?thesis
      using Cons [of seen] by (auto simp add: keep_first_Cons simp del: keep_first.simps)
  next
    case False
    then show ?thesis
      using Cons [of "cells cols y # seen"]
      by (auto simp add: keep_first_Cons simp del: keep_first.simps)
  qed
qed

lemma first_occurrences_snoc:
  "first_occurrences cols (xs @ [x]) =
     first_occurrences cols xs @ (if cells cols x \<in> cells cols ` set xs then [] else [x])"
proof -
  let ?P = "\<lambda>ys i. \<forall>j < i. cells cols (ys ! j) \<noteq> cells cols (ys ! i)"
  have old: "filter (?P (xs @ [x])) [0..<length xs] = filter (?P xs) [0..<length xs]"
    by (rule filter_cong) (auto simp: nth_append)
  have vals: "map (\<lambda>i. (xs @ [x]) ! i) (filter (?P xs) [0..<length xs])
                = map (\<lambda>i. xs ! i) (filter (?P xs) [0..<length xs])"
    by (rule map_cong) (auto simp: nth_append)
  have "?P (xs @ [x]) (length xs) \<longleftrightarrow> (\<forall>j < length xs. cells cols (xs ! j) \<noteq> cells cols x)"
    by (simp add: nth_append)
  also have "\<dots> \<longleftrightarrow> (\<forall>y \<in> set xs. cells cols y \<noteq> cells cols x)"
    by (metis in_set_conv_nth)
  also have "\<dots> \<longleftrightarrow> cells cols x \<notin> cells cols ` set xs"
    by (auto simp: image_iff)
  finally have new: "?P (xs @ [x]) (length xs) \<longleftrightarrow> cells cols x \<notin> cells cols ` set xs" .
  show ?thesis
    unfolding first_occurrences_def using old vals new by simp
qed

lemma keep_first_first_occurrences: "keep_first cols [] xs = first_occurrences cols xs"
proof (induction xs rule: rev_induct)
  case Nil
  then show ?case by (simp add: first_occurrences_def)
next
  case (snoc x xs)
  then show ?case by (simp add: keep_first_snoc first_occurrences_snoc)
qed

lemma cells_keep_first:
  "distinct (map (cells cols) (keep_first cols seen xs))
   \<and> cells cols ` set (keep_first cols seen xs) \<inter> set seen = {}"
proof (induction xs arbitrary: seen)
  case Nil
  then show ?case by simp
next
  case (Cons y ys)
  show ?case
  proof (cases "cells cols y \<in> set seen")
    case True
    then show ?thesis
      using Cons [of seen] by (simp add: keep_first_Cons del: keep_first.simps)
  next
    case False
    then show ?thesis
      using Cons [of "cells cols y # seen"]
      by (auto simp add: keep_first_Cons simp del: keep_first.simps)
  qed
qed

lemma drop_duplicates_rows:
  "columns f \<noteq> [] \<Longrightarrow> rows (drop_duplicates f) = keep_first (columns f) [] (rows f)"
  by (auto simp: drop_duplicates_def)

text \<open>
  Claim C6, as stated, fails on a frame that is left without columns: the table of the
  example has the identifier as its only column, line 71 drops it, and
  \<open>drop_duplicates\<close> returns a frame without columns as it is. The output has two rows
  and no column, so the two rows are the same in all columns.
\<close>

theorem duplicates_removed_counterexample:
  "map_sum id records (clean one_date (toPandas id_column_input)) = Inr [(0, []), (1, [])]
   \<and> map_sum id duplicate_free (clean one_date (toPandas id_column_input)) = Inr False"
  by (simp add: id_column_input_def duplicate_free_def cells_def eval_defs)

text \<open>
  Claim C6, amended. If the output frame has at least one column, no two of its rows are
  the same in all columns, and its rows are the first occurrences, in row order, of the
  rows of the frame just before line 101: a row stays exactly when no earlier row has
  the same cells.
\<close>

theorem duplicates_removed:
  assumes "clean parse f = Inr out" and "columns out \<noteq> []"
  shows "duplicate_free out
         \<and> (\<exists>C. before_dedup parse f = Inr C
                \<and> rows out = first_occurrences (columns out) (rows C))"
proof -
  from assms(1) obtain B C where C: "before_dedup parse f = Inr C"
    and out: "out = drop_duplicates C"
    by (rule clean_Inr)
  have "columns C \<noteq> []"
    using assms(2) unfolding out by simp
  then have rows: "rows (drop_duplicates C) = keep_first (columns C) [] (rows C)"
    by (rule drop_duplicates_rows)
  have "duplicate_free (drop_duplicates C)"
    using cells_keep_first [of "columns C" "[]" "rows C"]
    by (simp add: duplicate_free_def rows)
  moreover have "rows (drop_duplicates C)
      = first_occurrences (columns (drop_duplicates C)) (rows C)"
    by (simp add: rows keep_first_first_occurrences)
  ultimately show ?thesis
    unfolding out using C by blast
qed

theorem duplicates_removed_witness:
  "map_sum id columns (clean one_date (toPandas duplicate_input)) = Inr [''x'', ''y'']
   \<and> map_sum id records (clean one_date (toPandas duplicate_input))
       = Inr [(0, [Num 1, Str ''a'']), (1, [Num 2, Str ''a''])]
   \<and> map_sum id duplicate_free (clean one_date (toPandas duplicate_input)) = Inr True
   \<and> before_dedup one_date (toPandas duplicate_input) = Inr (toPandas duplicate_input)
   \<and> first_occurrences [''x'', ''y''] (rows (toPandas duplicate_input))
       = take 2 (rows (toPandas duplicate_input))"
proof -
  let ?out = "\<lparr>columns = [''x'', ''y''], rows = take 2 (rows (toPandas duplicate_input))\<rparr>"
  have out: "clean one_date (toPandas duplicate_input) = Inr ?out"
    by (simp add: duplicate_input_def eval_defs)
  have ne: "columns ?out \<noteq> []"
    by simp
  have C: "before_dedup one_date (toPandas duplicate_input) = Inr (toPandas duplicate_input)"
    by (simp add: duplicate_input_def stage_defs eval_defs)
  have rec: "records ?out = [(0, [Num 1, Str ''a'']), (1, [Num 2, Str ''a''])]"
    by (simp add: duplicate_input_def toPandas_def records_def row_of_def upt_conv_Cons)
  from duplicates_removed [OF out ne]
  have df: "duplicate_free ?out"
    and "\<exists>C. before_dedup one_date (toPandas duplicate_input) = Inr C
           \<and> rows ?out = first_occurrences (columns ?out) (rows C)"
    by blast+
  with C have fo: "first_occurrences [''x'', ''y''] (rows (toPandas duplicate_input))
      = take 2 (rows (toPandas duplicate_input))"
    by simp
  show ?thesis
    unfolding out using df rec C fo by simp
qed

text \<open>Where the rows of the output come from, for claims C3, C4 and C5.\<close>

lemma columns_toPandas: "columns (toPandas t) = table_columns t"
  by (simp add: toPandas_def)

lemma in_rows_toPandas:
  "(l, r) \<in> set (rows (toPandas t)) \<longleftrightarrow> l < length (table_rows t) \<and> r = table_rows t ! l"
proof
  assume "(l, r) \<in> set (rows (toPandas t))"
  then obtain n where "[0..<length (table_rows t)] ! n = l" "table_rows t ! n = r"
    "n < length (table_rows t)"
    by (auto simp: toPandas_def in_set_zip)
  then show "l < length (table_rows t) \<and> r = table_rows t ! l" by auto
next
  assume "l < length (table_rows t) \<and> r = table_rows t ! l"
  then have "[0..<length (table_rows t)] ! l = l \<and> table_rows t ! l = r
      \<and> l < length [0..<length (table_rows t)] \<and> l < length (table_rows t)"
    by simp
  then show "(l, r) \<in> set (rows (toPandas t))"
    unfolding toPandas_def by (auto simp: in_set_zip)
qed

lemma distinct_labels_toPandas: "distinct (labels (toPandas t))"
  by (simp add: labels_def toPandas_def)

lemma in_rows_dropna_all:
  "(l, r) \<in> set (rows (dropna_all f)) \<longleftrightarrow> (l, r) \<in> set (rows f) \<and> \<not> all_missing (columns f) r"
  by (auto simp: dropna_all_def)

lemma distinct_labels_dropna_all: "distinct (labels f) \<Longrightarrow> distinct (labels (dropna_all f))"
  by (simp add: labels_def dropna_all_def distinct_map_filter)

lemma labels_after_drops: "labels (after_drops f) = labels (dropna_all f)"
  by (simp add: labels_def rows_after_drops)

lemma in_rows_map_rows:
  "(l, r) \<in> set (rows (map_rows h f)) \<longleftrightarrow> (\<exists>r0. (l, r0) \<in> set (rows f) \<and> r = h r0)"
  by (auto simp: rows_map_rows)

lemma map_of_rows:
  "distinct (labels f) \<Longrightarrow> (l, r) \<in> set (rows f) \<Longrightarrow> map_of (rows f) l = Some r"
  by (simp add: labels_def)

lemma map_of_map_rows:
  assumes "distinct (labels f)" and "(l, r0) \<in> set (rows f)"
  shows "map_of (rows (map_rows h f)) l = Some (h r0)"
proof (rule map_of_rows)
  show "distinct (labels (map_rows h f))" using assms(1) by simp
  show "(l, h r0) \<in> set (rows (map_rows h f))"
    using assms(2) by (auto simp: in_rows_map_rows)
qed

lemma clean_row_origin:
  assumes "clean parse f = Inr out" and "(l, r) \<in> set (rows out)"
  obtains r0 where "(l, r0) \<in> set (rows (dropna_all f))"
    and "after_pd_dt parse f =
           Inr (map_rows (fill_pd_dt (kept_columns f))
                  (map_rows (parse_row parse (kept_columns f)) (after_drops f)))"
    and "r = fill_categorical (kept_columns f)
               (fill_clm_adjud_ts (kept_columns f)
                  (fill_pd_dt (kept_columns f) (parse_row parse (kept_columns f) r0)))"
proof -
  from assms(1) obtain B where B: "before_outliers parse f = Inr B"
    by (rule clean_Inr)
  then obtain Q where Q: "after_pd_dt parse f = Inr Q"
    and BQ: "B = map_rows (fill_categorical (kept_columns f))
                  (map_rows (fill_clm_adjud_ts (kept_columns f)) Q)"
    by (rule before_outliers_Inr)
  have Q': "Q = map_rows (fill_pd_dt (kept_columns f))
                  (map_rows (parse_row parse (kept_columns f)) (after_drops f))"
    using Q by (rule after_pd_dt_Inr)
  have "(l, r) \<in> set (rows B)"
    using clean_rows_subset [OF assms(1) B] assms(2) by blast
  then obtain r0 where r0: "(l, r0) \<in> set (rows (after_drops f))"
    and r: "r = fill_categorical (kept_columns f)
               (fill_clm_adjud_ts (kept_columns f)
                  (fill_pd_dt (kept_columns f) (parse_row parse (kept_columns f) r0)))"
    unfolding BQ Q' by (auto simp: in_rows_map_rows)
  show thesis
  proof (rule that)
    show "(l, r0) \<in> set (rows (dropna_all f))"
      using r0 by (simp add: rows_after_drops)
    show "after_pd_dt parse f =
           Inr (map_rows (fill_pd_dt (kept_columns f))
                  (map_rows (parse_row parse (kept_columns f)) (after_drops f)))"
      using Q Q' by simp
    show "r = fill_categorical (kept_columns f)
               (fill_clm_adjud_ts (kept_columns f)
                  (fill_pd_dt (kept_columns f) (parse_row parse (kept_columns f) r0)))"
      by (rule r)
  qed
qed

lemma dropna_all_idem: "dropna_all (dropna_all f) = dropna_all f"
  by (simp add: dropna_all_def case_prod_unfold)

lemma no_empty_row_dropna_all: "\<not> has_empty_row (dropna_all f)"
  by (auto simp: has_empty_row_def dropna_all_def list_ex_iff)

text \<open>
  Claim C5, as stated, fails: the first row of the example has a value in the identifier
  column only. It passes line 61, line 71 drops the identifier, and the output has a row
  that is missing in its only column; applying rule 1 to the output removes it.
\<close>

theorem empty_rows_counterexample:
  "map_sum id records (clean one_date (toPandas id_only_input))
     = Inr [(0, [NA]), (1, [Num 5]), (2, [Num 6])]
   \<and> map_sum id has_empty_row (clean one_date (toPandas id_only_input)) = Inr True
   \<and> map_sum id records (map_sum id dropna_all (clean one_date (toPandas id_only_input)))
     = Inr [(1, [Num 5]), (2, [Num 6])]"
  by (simp add: id_only_input_def has_empty_row_def eval_defs)

text \<open>
  Claim C5, amended. No row that is missing in every column of the input frame appears in
  the output: every output row carries the label of an input row with a value in at least
  one input column. The frame that rule 1 produces has no fully empty row, and applying
  rule 1 to its own result changes nothing.
\<close>

theorem empty_rows_dropped:
  "(clean parse (toPandas t) = Inr out \<and> (l, r) \<in> set (rows out) \<longrightarrow>
      l < length (table_rows t) \<and> \<not> all_missing (table_columns t) (table_rows t ! l))
   \<and> \<not> has_empty_row (dropna_all f)
   \<and> dropna_all (dropna_all f) = dropna_all f"
proof (intro conjI impI)
  assume a: "clean parse (toPandas t) = Inr out \<and> (l, r) \<in> set (rows out)"
  then obtain r0 where "(l, r0) \<in> set (rows (dropna_all (toPandas t)))"
    by (auto elim: clean_row_origin)
  then have "(l, r0) \<in> set (rows (toPandas t))" and "\<not> all_missing (columns (toPandas t)) r0"
    by (simp_all add: in_rows_dropna_all)
  then have "l < length (table_rows t)" and "\<not> all_missing (table_columns t) (table_rows t ! l)"
    by (simp_all add: in_rows_toPandas columns_toPandas)
  then show "l < length (table_rows t)"
    and "\<not> all_missing (table_columns t) (table_rows t ! l)" by simp_all
next
  show "\<not> has_empty_row (dropna_all f)" by (rule no_empty_row_dropna_all)
  show "dropna_all (dropna_all f) = dropna_all f" by (rule dropna_all_idem)
qed

theorem empty_rows_dropped_witness:
  "map_sum id records (clean one_date (toPandas sparse_input))
     = Inr [(2, [Num 1, Num 2]), (3, [Num 3, Num 4]), (4, [NA, Num 5])]
   \<and> all_missing (table_columns sparse_input) (table_rows sparse_input ! 0)
   \<and> all_missing (table_columns sparse_input) (table_rows sparse_input ! 1)
   \<and> 4 < length (table_rows sparse_input)
   \<and> \<not> all_missing (table_columns sparse_input) (table_rows sparse_input ! 4)
   \<and> dropna_all (dropna_all (toPandas sparse_input)) = dropna_all (toPandas sparse_input)"
proof -
  let ?out = "\<lparr>columns = [''a'', ''b''], rows = drop 2 (rows (toPandas sparse_input))\<rparr>"
  have out: "clean one_date (toPandas sparse_input) = Inr ?out"
    by (simp add: sparse_input_def eval_defs)
  have r: "(4, row_of [(''b'', Num 5)]) \<in> set (rows ?out)"
    by (simp add: sparse_input_def toPandas_def upt_conv_Cons)
  have rec: "records ?out = [(2, [Num 1, Num 2]), (3, [Num 3, Num 4]), (4, [NA, Num 5])]"
    by (simp add: sparse_input_def toPandas_def records_def row_of_def upt_conv_Cons)
  have e: "all_missing (table_columns sparse_input) (table_rows sparse_input ! 0)"
    "all_missing (table_columns sparse_input) (table_rows sparse_input ! 1)"
    by (simp_all add: sparse_input_def all_missing_def row_of_def)
  from empty_rows_dropped [of one_date sparse_input ?out 4 "row_of [(''b'', Num 5)]"
      "toPandas sparse_input"] out r
  have "4 < length (table_rows sparse_input)
      \<and> \<not> all_missing (table_columns sparse_input) (table_rows sparse_input ! 4)
      \<and> dropna_all (dropna_all (toPandas sparse_input)) = dropna_all (toPandas sparse_input)"
    by blast
  then show ?thesis
    unfolding out using rec e by simp
qed

text \<open>Facts about the cells of the date columns, for claims C3 and C4.\<close>

lemma coerced_cases: "coerced parse v = NA \<or> (\<exists>t. coerced parse v = Ts t)"
  by (cases v) (auto simp: coerced_def split: option.splits)

lemma shifted_NA [simp]: "shifted d NA = NA"
  by (simp add: shifted_def)

lemma shifted_Ts [simp]: "shifted d (Ts t) = Ts (t + d)"
  by (simp add: shifted_def)

lemma parsed_date_cases:
  assumes "c \<in> set date_columns" and "c \<in> set cols"
  shows "parse_row parse cols r c = NA \<or> (\<exists>t. parse_row parse cols r c = Ts t)"
  using assms coerced_cases [of parse "r c"] by (simp add: parse_row_apply)

lemma fill_pd_dt_apply:
  "fill_pd_dt cols r c =
     (if c = ''pd_dt'' \<and> ''clm_sys_cret_dt'' \<in> set cols \<and> ''pd_dt'' \<in> set cols \<and> r ''pd_dt'' = NA
      then shifted (Timedelta_days 2) (r ''clm_sys_cret_dt'') else r c)"
  by (simp add: fill_pd_dt_def)

lemma fill_clm_adjud_ts_apply:
  "fill_clm_adjud_ts cols r c =
     (if c = ''clm_adjud_ts'' \<and> ''pd_dt'' \<in> set cols \<and> ''clm_adjud_ts'' \<in> set cols
         \<and> r ''clm_adjud_ts'' = NA
      then shifted (- Timedelta_days 2) (r ''pd_dt'') else r c)"
  by (simp add: fill_clm_adjud_ts_def)

lemma fill_categorical_apply:
  "fill_categorical cols r c =
     (if c = ''procsr_apprv_pay_by_nm'' \<and> ''procsr_apprv_pay_by_nm'' \<in> set cols \<and> r c = NA
      then Str ''unknown'' else r c)"
  by (simp add: fill_categorical_def)

lemma after_pd_dt_columns: "after_pd_dt parse f = Inr Q \<Longrightarrow> columns Q = kept_columns f"
  by (drule after_pd_dt_Inr) simp

lemma distinct_labels_after_drops:
  "distinct (labels f) \<Longrightarrow> distinct (labels (after_drops f))"
  by (simp add: labels_after_drops distinct_labels_dropna_all)

text \<open>
  Claim C4. Let the frame have both \<open>pd_dt\<close> and \<open>clm_sys_cret_dt\<close> after the date
  parsing. Every row of the output is the row with the same label of that frame, with the
  same \<open>clm_sys_cret_dt\<close>; if its \<open>pd_dt\<close> was missing there and its \<open>clm_sys_cret_dt\<close>
  was not, \<open>clm_sys_cret_dt\<close> is a timestamp and the output \<open>pd_dt\<close> is that timestamp plus
  two days.
\<close>

theorem pd_dt_imputed:
  assumes "after_dates parse (toPandas t) = Inr P"
    and "''pd_dt'' \<in> set (columns P)" and "''clm_sys_cret_dt'' \<in> set (columns P)"
    and "clean parse (toPandas t) = Inr out"
    and "(l, r) \<in> set (rows out)"
  shows "\<exists>rp. map_of (rows P) l = Some rp
           \<and> r ''clm_sys_cret_dt'' = rp ''clm_sys_cret_dt''
           \<and> (rp ''pd_dt'' = NA \<and> rp ''clm_sys_cret_dt'' \<noteq> NA \<longrightarrow>
                (\<exists>ts. rp ''clm_sys_cret_dt'' = Ts ts \<and> r ''pd_dt'' = Ts (ts + Timedelta_days 2)))"
proof -
  let ?f = "toPandas t"
  let ?cols = "kept_columns ?f"
  have P: "P = map_rows (parse_row parse ?cols) (after_drops ?f)"
    using assms(1) by (simp add: after_dates_eq)
  then have cols: "''pd_dt'' \<in> set ?cols" "''clm_sys_cret_dt'' \<in> set ?cols"
    using assms(2,3) by simp_all
  from assms(4,5) obtain r0 where r0: "(l, r0) \<in> set (rows (dropna_all ?f))"
    and r: "r = fill_categorical ?cols
               (fill_clm_adjud_ts ?cols (fill_pd_dt ?cols (parse_row parse ?cols r0)))"
    by (rule clean_row_origin)
  let ?rp = "parse_row parse ?cols r0"
  have "distinct (labels (after_drops ?f))"
    by (rule distinct_labels_after_drops) (rule distinct_labels_toPandas)
  moreover have "(l, r0) \<in> set (rows (after_drops ?f))"
    using r0 by (simp add: rows_after_drops)
  ultimately have look: "map_of (rows P) l = Some ?rp"
    unfolding P by (rule map_of_map_rows)
  have same: "r ''clm_sys_cret_dt'' = ?rp ''clm_sys_cret_dt''"
    by (simp add: r fill_categorical_apply fill_clm_adjud_ts_apply fill_pd_dt_apply)
  have fill: "\<exists>ts. ?rp ''clm_sys_cret_dt'' = Ts ts \<and> r ''pd_dt'' = Ts (ts + Timedelta_days 2)"
    if miss: "?rp ''pd_dt'' = NA" and pres: "?rp ''clm_sys_cret_dt'' \<noteq> NA"
  proof -
    have "''clm_sys_cret_dt'' \<in> set date_columns" by (simp add: date_columns_def)
    from parsed_date_cases [OF this cols(2), of parse r0] pres
    obtain ts where ts: "?rp ''clm_sys_cret_dt'' = Ts ts" by auto
    have "r ''pd_dt'' = shifted (Timedelta_days 2) (?rp ''clm_sys_cret_dt'')"
      using cols miss
      by (simp add: r fill_categorical_apply fill_clm_adjud_ts_apply fill_pd_dt_apply)
    with ts show ?thesis by simp
  qed
  from look same fill show ?thesis by blast
qed

text \<open>
  Claim C3. Let the frame have both \<open>pd_dt\<close> and \<open>clm_adjud_ts\<close> after line 79, that is,
  when the rule for \<open>clm_adjud_ts\<close> runs. Every row of the output is the row with the same
  label of that frame, with the same \<open>pd_dt\<close> (the value after the imputation of
  \<open>pd_dt\<close>); if its \<open>clm_adjud_ts\<close> was missing there, the output \<open>clm_adjud_ts\<close> is that
  \<open>pd_dt\<close> minus two days, which is missing when \<open>pd_dt\<close> is missing.
\<close>

theorem clm_adjud_ts_imputed:
  assumes "after_pd_dt parse (toPandas t) = Inr Q"
    and "''pd_dt'' \<in> set (columns Q)" and "''clm_adjud_ts'' \<in> set (columns Q)"
    and "clean parse (toPandas t) = Inr out"
    and "(l, r) \<in> set (rows out)"
  shows "\<exists>rq. map_of (rows Q) l = Some rq
           \<and> r ''pd_dt'' = rq ''pd_dt''
           \<and> (rq ''clm_adjud_ts'' = NA \<longrightarrow>
                (rq ''pd_dt'' = NA \<and> r ''clm_adjud_ts'' = NA)
                \<or> (\<exists>ts. rq ''pd_dt'' = Ts ts \<and> r ''clm_adjud_ts'' = Ts (ts - Timedelta_days 2)))"
proof -
  let ?f = "toPandas t"
  let ?cols = "kept_columns ?f"
  have Q: "Q = map_rows (fill_pd_dt ?cols) (map_rows (parse_row parse ?cols) (after_drops ?f))"
    using assms(1) by (rule after_pd_dt_Inr)
  then have cols: "''pd_dt'' \<in> set ?cols" "''clm_adjud_ts'' \<in> set ?cols"
    using assms(2,3) by simp_all
  from assms(4,5) obtain r0 where r0: "(l, r0) \<in> set (rows (dropna_all ?f))"
    and r: "r = fill_categorical ?cols
               (fill_clm_adjud_ts ?cols (fill_pd_dt ?cols (parse_row parse ?cols r0)))"
    by (rule clean_row_origin)
  let ?rp = "parse_row parse ?cols r0"
  let ?rq = "fill_pd_dt ?cols ?rp"
  have "distinct (labels (map_rows (parse_row parse ?cols) (after_drops ?f)))"
    using distinct_labels_after_drops [OF distinct_labels_toPandas, of t] by simp
  moreover have "(l, ?rp) \<in> set (rows (map_rows (parse_row parse ?cols) (after_drops ?f)))"
    using r0 by (auto simp: in_rows_map_rows rows_after_drops)
  ultimately have look: "map_of (rows Q) l = Some ?rq"
    unfolding Q by (rule map_of_map_rows)
  have same: "r ''pd_dt'' = ?rq ''pd_dt''"
    by (simp add: r fill_categorical_apply fill_clm_adjud_ts_apply)
  have pd: "''pd_dt'' \<in> set date_columns" and cr: "''clm_sys_cret_dt'' \<in> set date_columns"
    by (simp_all add: date_columns_def)
  have kind: "?rq ''pd_dt'' = NA \<or> (\<exists>ts. ?rq ''pd_dt'' = Ts ts)"
  proof (cases "''clm_sys_cret_dt'' \<in> set ?cols \<and> ?rp ''pd_dt'' = NA")
    case True
    then have "?rq ''pd_dt'' = shifted (Timedelta_days 2) (?rp ''clm_sys_cret_dt'')"
      using cols by (simp add: fill_pd_dt_apply)
    moreover have "?rp ''clm_sys_cret_dt'' = NA \<or> (\<exists>ts. ?rp ''clm_sys_cret_dt'' = Ts ts)"
      using True by (intro parsed_date_cases [OF cr]) simp
    ultimately show ?thesis by auto
  next
    case False
    then have "?rq ''pd_dt'' = ?rp ''pd_dt''"
      by (auto simp: fill_pd_dt_apply)
    then show ?thesis
      using parsed_date_cases [OF pd cols(1), of parse r0] by simp
  qed
  have fill: "(?rq ''pd_dt'' = NA \<and> r ''clm_adjud_ts'' = NA)
      \<or> (\<exists>ts. ?rq ''pd_dt'' = Ts ts \<and> r ''clm_adjud_ts'' = Ts (ts - Timedelta_days 2))"
    if miss: "?rq ''clm_adjud_ts'' = NA"
  proof -
    have "r ''clm_adjud_ts'' = shifted (- Timedelta_days 2) (?rq ''pd_dt'')"
      using cols miss by (simp add: r fill_categorical_apply fill_clm_adjud_ts_apply)
    with kind show ?thesis by auto
  qed
  from look same fill show ?thesis by blast
qed


theorem pd_dt_imputed_witness:
  "\<exists>P out r rp.
      after_dates one_date (toPandas dates_input) = Inr P
      \<and> ''pd_dt'' \<in> set (columns P) \<and> ''clm_sys_cret_dt'' \<in> set (columns P)
      \<and> clean one_date (toPandas dates_input) = Inr out
      \<and> (0, r) \<in> set (rows out)
      \<and> map_of (rows P) 0 = Some rp
      \<and> rp ''pd_dt'' = NA
      \<and> rp ''clm_sys_cret_dt'' = Ts 1705276800000000000
      \<and> r ''pd_dt'' = Ts 1705449600000000000"
proof -
  have ev: "map_sum id records (clean one_date (toPandas dates_input)) = Inr
      [(0, [Ts 1705449600000000000, Ts 1705276800000000000, Ts 1705276800000000000]),
       (1, [Ts 1705276800000000000, Ts 1705276800000000000, NA]),
       (2, [Ts 5, Ts 6, Ts 7])]"
    by (simp add: dates_input_def eval_defs)
  then obtain out where out: "clean one_date (toPandas dates_input) = Inr out"
    and rec: "records out =
      [(0, [Ts 1705449600000000000, Ts 1705276800000000000, Ts 1705276800000000000]),
       (1, [Ts 1705276800000000000, Ts 1705276800000000000, NA]),
       (2, [Ts 5, Ts 6, Ts 7])]"
    by (cases "clean one_date (toPandas dates_input)") auto
  have "(0, [Ts 1705449600000000000, Ts 1705276800000000000, Ts 1705276800000000000])
      \<in> set (records out)"
    by (simp add: rec)
  then obtain r where r: "(0, r) \<in> set (rows out)"
    by (auto simp: records_def)
  obtain P where P: "after_dates one_date (toPandas dates_input) = Inr P"
    by (simp add: after_dates_eq)
  have recP: "map_sum id records (after_dates one_date (toPandas dates_input)) = Inr
      [(0, [NA, NA, Ts 1705276800000000000]),
       (1, [Ts 1705276800000000000, Ts 1705276800000000000, NA]),
       (2, [Ts 5, Ts 6, Ts 7])]"
    and colP: "map_sum id columns (after_dates one_date (toPandas dates_input))
      = Inr [''pd_dt'', ''clm_adjud_ts'', ''clm_sys_cret_dt'']"
    and lookP: "map_sum id (\<lambda>P. map_option (\<lambda>r. (r ''pd_dt'', r ''clm_sys_cret_dt''))
                                 (map_of (rows P) 0))
                  (after_dates one_date (toPandas dates_input))
      = Inr (Some (NA, Ts 1705276800000000000))"
    by (simp_all add: dates_input_def stage_defs eval_defs)
  have c: "''pd_dt'' \<in> set (columns P)" "''clm_sys_cret_dt'' \<in> set (columns P)"
    using colP P by simp_all
  from pd_dt_imputed [OF P c out r] obtain rp where rp: "map_of (rows P) 0 = Some rp"
    and imp: "rp ''pd_dt'' = NA \<and> rp ''clm_sys_cret_dt'' \<noteq> NA \<longrightarrow>
       (\<exists>ts. rp ''clm_sys_cret_dt'' = Ts ts \<and> r ''pd_dt'' = Ts (ts + Timedelta_days 2))"
    by blast
  have v: "rp ''pd_dt'' = NA" "rp ''clm_sys_cret_dt'' = Ts 1705276800000000000"
    using lookP P rp by simp_all
  with imp have "r ''pd_dt'' = Ts 1705449600000000000"
    by (simp add: Timedelta_days_def)
  with P c out r rp v show ?thesis by blast
qed

theorem clm_adjud_ts_imputed_witness:
  "\<exists>Q out r rq.
      after_pd_dt one_date (toPandas dates_input) = Inr Q
      \<and> ''pd_dt'' \<in> set (columns Q) \<and> ''clm_adjud_ts'' \<in> set (columns Q)
      \<and> clean one_date (toPandas dates_input) = Inr out
      \<and> (0, r) \<in> set (rows out)
      \<and> map_of (rows Q) 0 = Some rq
      \<and> rq ''clm_adjud_ts'' = NA
      \<and> rq ''pd_dt'' = Ts 1705449600000000000
      \<and> r ''pd_dt'' = Ts 1705449600000000000
      \<and> r ''clm_adjud_ts'' = Ts 1705276800000000000"
proof -
  have ev: "map_sum id records (clean one_date (toPandas dates_input)) = Inr
      [(0, [Ts 1705449600000000000, Ts 1705276800000000000, Ts 1705276800000000000]),
       (1, [Ts 1705276800000000000, Ts 1705276800000000000, NA]),
       (2, [Ts 5, Ts 6, Ts 7])]"
    by (simp add: dates_input_def eval_defs)
  then obtain out where out: "clean one_date (toPandas dates_input) = Inr out"
    and rec: "records out =
      [(0, [Ts 1705449600000000000, Ts 1705276800000000000, Ts 1705276800000000000]),
       (1, [Ts 1705276800000000000, Ts 1705276800000000000, NA]),
       (2, [Ts 5, Ts 6, Ts 7])]"
    by (cases "clean one_date (toPandas dates_input)") auto
  have "(0, [Ts 1705449600000000000, Ts 1705276800000000000, Ts 1705276800000000000])
      \<in> set (records out)"
    by (simp add: rec)
  then obtain r where r: "(0, r) \<in> set (rows out)"
    by (auto simp: records_def)
  have colQ: "map_sum id columns (after_pd_dt one_date (toPandas dates_input))
      = Inr [''pd_dt'', ''clm_adjud_ts'', ''clm_sys_cret_dt'']"
    and lookQ: "map_sum id (\<lambda>Q. map_option (\<lambda>r. (r ''pd_dt'', r ''clm_adjud_ts''))
                                 (map_of (rows Q) 0))
                  (after_pd_dt one_date (toPandas dates_input))
      = Inr (Some (Ts 1705449600000000000, NA))"
    by (simp_all add: dates_input_def stage_defs eval_defs)
  from colQ obtain Q where Q: "after_pd_dt one_date (toPandas dates_input) = Inr Q"
    by (cases "after_pd_dt one_date (toPandas dates_input)") auto
  have c: "''pd_dt'' \<in> set (columns Q)" "''clm_adjud_ts'' \<in> set (columns Q)"
    using colQ Q by simp_all
  from clm_adjud_ts_imputed [OF Q c out r] obtain rq where rq: "map_of (rows Q) 0 = Some rq"
    and same: "r ''pd_dt'' = rq ''pd_dt''"
    and imp: "rq ''clm_adjud_ts'' = NA \<longrightarrow>
       (rq ''pd_dt'' = NA \<and> r ''clm_adjud_ts'' = NA)
       \<or> (\<exists>ts. rq ''pd_dt'' = Ts ts \<and> r ''clm_adjud_ts'' = Ts (ts - Timedelta_days 2))"
    by blast
  have v: "rq ''clm_adjud_ts'' = NA" "rq ''pd_dt'' = Ts 1705449600000000000"
    using lookQ Q rq by simp_all
  with imp have "r ''clm_adjud_ts'' = Ts 1705276800000000000"
    by (simp add: Timedelta_days_def)
  with Q c out r rq v same show ?thesis by (intro exI [of _ Q] exI [of _ out] exI [of _ r] exI [of _ rq]) simp
qed

end
